theory Spec2Isabelle
  imports Main
begin

section \<open>Data model\<close>

text \<open>
  The declarations of \<^verbatim>\<open>@/types/chess\<close> as they stand at the end of
  \<^verbatim>\<open>src/app/index.tsx\<close> (lines 392-428): PieceType, Player, Piece, Position, Board,
  CastlingRights and GameState. The two further fields of the GameState of
  \<^verbatim>\<open>src/unnamed/part_000\<close> and its GameConfig have no declaration among the sources;
  they are read off the object literals of that controller
  (\<^verbatim>\<open>useState<GameState>({...})\<close>, \<^verbatim>\<open>useState<GameConfig>({...})\<close>).
\<close>

datatype player = White | Black

datatype pieceType = King | Queen | Rook | Bishop | Knight | Pawn

record piece =
  ptype :: pieceType
  color :: player

text \<open>A board is an array of rows, each an array of optional pieces, indexed \<^verbatim>\<open>board[row][col]\<close>.\<close>

type_synonym board = "piece option list list"

text \<open>A position is the pair \<^verbatim>\<open>[row, col]\<close> of JavaScript numbers (integers here).\<close>

type_synonym position = "int \<times> int"

text \<open>
  The removal ledger is a \<^verbatim>\<open>Set<string>\<close> of keys \<^verbatim>\<open>`${row}-${col}`\<close>. The decimal
  rendering of two integers around a dash determines both integers, so a key is modelled by
  the pair it encodes and the ledger by a set of such pairs.
\<close>

type_synonym positionKey = "int \<times> int"

definition positionKey :: "int \<Rightarrow> int \<Rightarrow> positionKey" where
  "positionKey row col = (row, col)"

text \<open>Objects with one entry per player (\<^verbatim>\<open>{ white: ..., black: ... }\<close>).\<close>

record 'a perPlayer =
  white :: 'a
  black :: 'a

fun atPlayer :: "'a perPlayer \<Rightarrow> player \<Rightarrow> 'a" where
  "atPlayer m White = white m"
| "atPlayer m Black = black m"

fun setPlayer :: "'a perPlayer \<Rightarrow> player \<Rightarrow> 'a \<Rightarrow> 'a perPlayer" where
  "setPlayer m White v = m\<lparr>white := v\<rparr>"
| "setPlayer m Black v = m\<lparr>black := v\<rparr>"

text \<open>Objects with one flag per colour and side (castlingRights, rookMoved).\<close>

record sideFlags =
  whiteKingside :: bool
  whiteQueenside :: bool
  blackKingside :: bool
  blackQueenside :: bool

text \<open>The GameState of \<^verbatim>\<open>src/app/index.tsx\<close>.\<close>

record gameState =
  board :: board
  currentPlayer :: player
  selectedSquare :: "position option"
  removedSquares :: "positionKey set"
  gameOver :: bool
  winner :: "player option"
  castlingRights :: sideFlags
  kingMoved :: "bool perPlayer"
  rookMoved :: sideFlags

text \<open>The GameState of \<^verbatim>\<open>src/unnamed/part_000\<close> has two more fields.\<close>

record timedGameState = gameState +
  removalsUsed :: "int perPlayer"
  timeLeft :: "int perPlayer"

record gameConfig =
  timeLimit :: int
  removalsPerPlayer :: int
  gameStarted :: bool

datatype actionMode = Move | Remove

text \<open>
  The calls of \<^verbatim>\<open>Alert.alert\<close>, one constructor per call site:
  LimitReached n: 'Limite atteinte', all n removals used;
  AlreadyRemoved: 'Erreur', the square is already removed;
  SquareOccupied: 'Erreur', the square holds a piece;
  LeavesKingInCheck: 'Mouvement invalide', the move would leave the king in check;
  CastledAndWon p, Checkmate p, Castled p: the three alerts after an applied move;
  TimeExpired p: 'Temps ecoule', p wins by forfeit.
\<close>

datatype alert =
    LimitReached int
  | AlreadyRemoved
  | SquareOccupied
  | LeavesKingInCheck
  | CastledAndWon player
  | Checkmate player
  | Castled player
  | TimeExpired player

text \<open>
  Reading a property of \<^verbatim>\<open>undefined\<close> throws a TypeError; it is the only exception the
  controllers can raise by themselves.
\<close>

datatype jsError = TypeError

text \<open>
  \<^verbatim>\<open>board[row][col]\<close>: a row index outside the array gives \<^verbatim>\<open>undefined\<close>, whose
  indexing throws; a column index outside the row gives \<^verbatim>\<open>undefined\<close>, which is falsy
  like \<^verbatim>\<open>null\<close>.
\<close>

definition boardAt :: "board \<Rightarrow> int \<Rightarrow> int \<Rightarrow> jsError + piece option" where
  "boardAt b row col =
     (if row < 0 \<or> int (length b) \<le> row then Inl TypeError
      else if col < 0 \<or> int (length (b ! nat row)) \<le> col then Inr None
      else Inr ((b ! nat row) ! nat col))"

text \<open>\<^verbatim>\<open>p === 'white' ? 'black' : 'white'\<close>\<close>

definition opponent :: "player \<Rightarrow> player" where
  "opponent p = (if p = White then Black else White)"

text \<open>\<^verbatim>\<open>piece && piece.color === gameState.currentPlayer\<close>\<close>

definition ownPiece :: "piece option \<Rightarrow> player \<Rightarrow> bool" where
  "ownPiece p c = (case p of None \<Rightarrow> False | Some pc \<Rightarrow> color pc = c)"

section \<open>The rule engine, as the controllers see it\<close>

text \<open>
  The functions imported from \<^verbatim>\<open>@/utils/chessLogic\<close> are not among the sources. The
  controllers are modelled over an arbitrary implementation of that module: a record of
  the six imported functions, taken as total and pure. \<^verbatim>\<open>makeMove\<close> returns the object
  \<^verbatim>\<open>{ board, isCastling }\<close>, here a pair.
\<close>

record 'g chessLogic =
  initializeBoard :: board
  isValidMove :: "board \<Rightarrow> position \<Rightarrow> position \<Rightarrow> positionKey set \<Rightarrow> 'g \<Rightarrow> bool"
  makeMove :: "board \<Rightarrow> position \<Rightarrow> position \<Rightarrow> 'g \<Rightarrow> board \<times> bool"
  isInCheck :: "board \<Rightarrow> player \<Rightarrow> positionKey set \<Rightarrow> bool"
  isCheckmate :: "board \<Rightarrow> player \<Rightarrow> positionKey set \<Rightarrow> 'g \<Rightarrow> bool"
  updateCastlingRights :: "'g \<Rightarrow> position \<Rightarrow> position \<Rightarrow> 'g"

section \<open>The controller of src/app/index.tsx\<close>

text \<open>The React state of the component: \<^verbatim>\<open>gameState\<close> and \<^verbatim>\<open>actionMode\<close>.\<close>

record 'g shell =
  gameState :: 'g
  actionMode :: actionMode

text \<open>Lines 54-77: a press in remove mode.\<close>

definition removePress_index ::
  "('a gameState_scheme, 'b) shell_scheme \<Rightarrow> int \<Rightarrow> int
    \<Rightarrow> jsError + (('a gameState_scheme, 'b) shell_scheme \<times> alert list)" where
  "removePress_index u row col =
     (let gs = gameState u in
      if positionKey row col \<in> removedSquares gs then Inr (u, [AlreadyRemoved])
      else case boardAt (board gs) row col of
        Inl e \<Rightarrow> Inl e
      | Inr (Some pc) \<Rightarrow> Inr (u, [SquareOccupied])
      | Inr None \<Rightarrow>
          Inr (u\<lparr>gameState := gs\<lparr>removedSquares := insert (positionKey row col) (removedSquares gs),
                                  currentPlayer := opponent (currentPlayer gs)\<rparr>,
                 actionMode := Move\<rparr>, []))"

text \<open>
  Lines 97-122 (part_000: 154-179), shared by both controllers: the state written by
  \<^verbatim>\<open>setGameState({...updatedGameState, board: newBoard, ...})\<close> once a move has passed
  both tests, and the alert shown with it.
\<close>

definition appliedMove ::
  "('a gameState_scheme) chessLogic \<Rightarrow> 'a gameState_scheme \<Rightarrow> position \<Rightarrow> position
    \<Rightarrow> 'a gameState_scheme" where
  "appliedMove L gs sel pos =
     (let moveResult = makeMove L (board gs) sel pos gs;
          newBoard = fst moveResult;
          nextPlayer = opponent (currentPlayer gs);
          updatedGameState = updateCastlingRights L gs sel pos;
          mate = isCheckmate L newBoard nextPlayer (removedSquares gs) updatedGameState
      in updatedGameState\<lparr>board := newBoard,
                            currentPlayer := nextPlayer,
                            selectedSquare := None,
                            gameOver := mate,
                            winner := (if mate then Some (currentPlayer gs) else None)\<rparr>)"

definition appliedAlerts ::
  "('a gameState_scheme) chessLogic \<Rightarrow> 'a gameState_scheme \<Rightarrow> position \<Rightarrow> position
    \<Rightarrow> alert list" where
  "appliedAlerts L gs sel pos =
     (let moveResult = makeMove L (board gs) sel pos gs;
          newBoard = fst moveResult;
          nextPlayer = opponent (currentPlayer gs);
          updatedGameState = updateCastlingRights L gs sel pos;
          mate = isCheckmate L newBoard nextPlayer (removedSquares gs) updatedGameState
      in if mate then (if snd moveResult then [CastledAndWon (currentPlayer gs)]
                       else [Checkmate (currentPlayer gs)])
         else if snd moveResult then [Castled (currentPlayer gs)] else [])"

text \<open>
  Line 92 (part_000: 149): the test made on the simulated board before anything is written.
\<close>

definition leavesKingInCheck ::
  "('a gameState_scheme) chessLogic \<Rightarrow> 'a gameState_scheme \<Rightarrow> position \<Rightarrow> position \<Rightarrow> bool" where
  "leavesKingInCheck L gs sel pos =
     isInCheck L (fst (makeMove L (board gs) sel pos gs)) (currentPlayer gs) (removedSquares gs)"

text \<open>Lines 48-139.\<close>

definition handleSquarePress_index ::
  "('a gameState_scheme) chessLogic \<Rightarrow> ('a gameState_scheme, 'b) shell_scheme \<Rightarrow> int \<Rightarrow> int
    \<Rightarrow> jsError + (('a gameState_scheme, 'b) shell_scheme \<times> alert list)" where
  "handleSquarePress_index L u row col =
     (let gs = gameState u; position = (row, col) in
      if gameOver gs then Inr (u, [])
      else if actionMode u = Remove then removePress_index u row col
      else case selectedSquare gs of
        Some sel \<Rightarrow>
          if sel = position then Inr (u\<lparr>gameState := gs\<lparr>selectedSquare := None\<rparr>\<rparr>, [])
          else if isValidMove L (board gs) sel position (removedSquares gs) gs then
            (if leavesKingInCheck L gs sel position then Inr (u, [LeavesKingInCheck])
             else Inr (u\<lparr>gameState := appliedMove L gs sel position, actionMode := Move\<rparr>,
                       appliedAlerts L gs sel position))
          else
            (case boardAt (board gs) row col of
              Inl e \<Rightarrow> Inl e
            | Inr p \<Rightarrow>
                if ownPiece p (currentPlayer gs)
                then Inr (u\<lparr>gameState := gs\<lparr>selectedSquare := Some position\<rparr>\<rparr>, [])
                else Inr (u\<lparr>gameState := gs\<lparr>selectedSquare := None\<rparr>\<rparr>, []))
      | None \<Rightarrow>
          (case boardAt (board gs) row col of
            Inl e \<Rightarrow> Inl e
          | Inr p \<Rightarrow>
              if ownPiece p (currentPlayer gs)
              then Inr (u\<lparr>gameState := gs\<lparr>selectedSquare := Some position\<rparr>\<rparr>, [])
              else Inr (u, [])))"

text \<open>Lines 141-166: \<^verbatim>\<open>resetGame\<close>, which is also the initial state of lines 21-46.\<close>

definition initialGameState :: "'g chessLogic \<Rightarrow> gameState" where
  "initialGameState L =
     \<lparr>board = initializeBoard L,
      currentPlayer = White,
      selectedSquare = None,
      removedSquares = {},
      gameOver = False,
      winner = None,
      castlingRights = \<lparr>whiteKingside = True, whiteQueenside = True,
                        blackKingside = True, blackQueenside = True\<rparr>,
      kingMoved = \<lparr>white = False, black = False\<rparr>,
      rookMoved = \<lparr>whiteKingside = False, whiteQueenside = False,
                   blackKingside = False, blackQueenside = False\<rparr>\<rparr>"

definition resetGame_index :: "'g chessLogic \<Rightarrow> gameState shell" where
  "resetGame_index L = \<lparr>gameState = initialGameState L, actionMode = Move\<rparr>"

section \<open>The controller of src/unnamed/part_000\<close>

text \<open>
  The React state of the component: \<^verbatim>\<open>gameState\<close>, \<^verbatim>\<open>actionMode\<close>,
  \<^verbatim>\<open>gameConfig\<close> and \<^verbatim>\<open>possibleMoves\<close>.
\<close>

record 'g timedShell = "'g shell" +
  gameConfig :: gameConfig
  possibleMoves :: "position list"

text \<open>Lines 99-133: a press in remove mode.\<close>

definition removePress ::
  "('a timedGameState_scheme, 'b) timedShell_scheme \<Rightarrow> int \<Rightarrow> int
    \<Rightarrow> jsError + (('a timedGameState_scheme, 'b) timedShell_scheme \<times> alert list)" where
  "removePress u row col =
     (let gs = gameState u in
      if removalsPerPlayer (gameConfig u) \<le> atPlayer (removalsUsed gs) (currentPlayer gs)
      then Inr (u, [LimitReached (removalsPerPlayer (gameConfig u))])
      else if positionKey row col \<in> removedSquares gs then Inr (u, [AlreadyRemoved])
      else case boardAt (board gs) row col of
        Inl e \<Rightarrow> Inl e
      | Inr (Some pc) \<Rightarrow> Inr (u, [SquareOccupied])
      | Inr None \<Rightarrow>
          Inr (u\<lparr>gameState :=
                    gs\<lparr>removedSquares := insert (positionKey row col) (removedSquares gs),
                       removalsUsed := setPlayer (removalsUsed gs) (currentPlayer gs)
                                         (atPlayer (removalsUsed gs) (currentPlayer gs) + 1),
                       currentPlayer := opponent (currentPlayer gs)\<rparr>,
                 actionMode := Move,
                 possibleMoves := []\<rparr>, []))"

text \<open>
  Lines 188-199 and 210-221: the squares shown as possible moves of a newly selected piece.
\<close>

definition computeMoves ::
  "('a gameState_scheme) chessLogic \<Rightarrow> 'a gameState_scheme \<Rightarrow> position \<Rightarrow> position list" where
  "computeMoves L gs position =
     concat (map (\<lambda>toRow. concat (map (\<lambda>toCol.
        if isValidMove L (board gs) position (toRow, toCol) (removedSquares gs) gs
           \<and> \<not> leavesKingInCheck L gs position (toRow, toCol)
        then [(toRow, toCol)] else []) [0..7])) [0..7])"

text \<open>Lines 93-224.\<close>

definition handleSquarePress ::
  "('a timedGameState_scheme) chessLogic \<Rightarrow> ('a timedGameState_scheme, 'b) timedShell_scheme
    \<Rightarrow> int \<Rightarrow> int
    \<Rightarrow> jsError + (('a timedGameState_scheme, 'b) timedShell_scheme \<times> alert list)" where
  "handleSquarePress L u row col =
     (let gs = gameState u; position = (row, col) in
      if gameOver gs then Inr (u, [])
      else if actionMode u = Remove then removePress u row col
      else case selectedSquare gs of
        Some sel \<Rightarrow>
          if sel = position
          then Inr (u\<lparr>gameState := gs\<lparr>selectedSquare := None\<rparr>, possibleMoves := []\<rparr>, [])
          else if isValidMove L (board gs) sel position (removedSquares gs) gs then
            (if leavesKingInCheck L gs sel position then Inr (u, [LeavesKingInCheck])
             else Inr (u\<lparr>gameState := appliedMove L gs sel position,
                         actionMode := Move,
                         possibleMoves := []\<rparr>,
                       appliedAlerts L gs sel position))
          else
            (case boardAt (board gs) row col of
              Inl e \<Rightarrow> Inl e
            | Inr p \<Rightarrow>
                if ownPiece p (currentPlayer gs)
                then Inr (u\<lparr>gameState := gs\<lparr>selectedSquare := Some position\<rparr>,
                            possibleMoves := computeMoves L gs position\<rparr>, [])
                else Inr (u\<lparr>gameState := gs\<lparr>selectedSquare := None\<rparr>, possibleMoves := []\<rparr>, []))
      | None \<Rightarrow>
          (case boardAt (board gs) row col of
            Inl e \<Rightarrow> Inl e
          | Inr p \<Rightarrow>
              if ownPiece p (currentPlayer gs)
              then Inr (u\<lparr>gameState := gs\<lparr>selectedSquare := Some position\<rparr>,
                          possibleMoves := computeMoves L gs position\<rparr>, [])
              else Inr (u, [])))"

text \<open>Lines 59-67.\<close>

definition handleTimeUp ::
  "player \<Rightarrow> ('a timedGameState_scheme, 'b) timedShell_scheme
    \<Rightarrow> ('a timedGameState_scheme, 'b) timedShell_scheme \<times> alert list" where
  "handleTimeUp p u =
     (let winner' = (if p = White then Black else White) in
      (u\<lparr>gameState := (gameState u)\<lparr>gameOver := True, winner := Some winner'\<rparr>\<rparr>,
       [TimeExpired winner']))"

text \<open>Lines 69-77.\<close>

definition handleTimeUpdate ::
  "player \<Rightarrow> int \<Rightarrow> ('a timedGameState_scheme, 'b) timedShell_scheme
    \<Rightarrow> ('a timedGameState_scheme, 'b) timedShell_scheme" where
  "handleTimeUpdate p newTime u =
     u\<lparr>gameState := (gameState u)\<lparr>timeLeft := setPlayer (timeLeft (gameState u)) p newTime\<rparr>\<rparr>"

text \<open>
  \<^verbatim>\<open>src/unnamed/part_001\<close>, lines 22-44: what the interval callback of the turn clock does
  each time it fires. No interval runs once the game is over.
\<close>

definition timerTick ::
  "('a timedGameState_scheme, 'b) timedShell_scheme
    \<Rightarrow> ('a timedGameState_scheme, 'b) timedShell_scheme \<times> alert list" where
  "timerTick u =
     (let gs = gameState u; currentTime = atPlayer (timeLeft gs) (currentPlayer gs) in
      if gameOver gs then (u, [])
      else if currentTime \<le> 1 then handleTimeUp (currentPlayer gs) u
      else (handleTimeUpdate (currentPlayer gs) (currentTime - 1) u, []))"

text \<open>
  Lines 79-91: the set-up screen merges its settings into the configuration, and starting
  the game fills both clocks. The type \<^verbatim>\<open>GameSettings\<close> is not among the sources; the
  settings are taken to be the time limit and the removals per player.
\<close>

definition handleSettingsChange ::
  "int \<Rightarrow> int \<Rightarrow> ('g, 'b) timedShell_scheme \<Rightarrow> ('g, 'b) timedShell_scheme" where
  "handleSettingsChange minutes quota u =
     u\<lparr>gameConfig := (gameConfig u)\<lparr>timeLimit := minutes, removalsPerPlayer := quota\<rparr>\<rparr>"

definition startGame ::
  "('a timedGameState_scheme, 'b) timedShell_scheme
    \<Rightarrow> ('a timedGameState_scheme, 'b) timedShell_scheme" where
  "startGame u =
     (let timeInSeconds = timeLimit (gameConfig u) * 60 in
      u\<lparr>gameState := (gameState u)\<lparr>timeLeft := \<lparr>white = timeInSeconds, black = timeInSeconds\<rparr>\<rparr>,
        gameConfig := (gameConfig u)\<lparr>gameStarted := True\<rparr>\<rparr>)"

text \<open>Lines 226-260: \<^verbatim>\<open>resetGame\<close>, which is also the initial state of lines 23-57.\<close>

definition resetGame :: "'g chessLogic \<Rightarrow> timedGameState timedShell" where
  "resetGame L =
     \<lparr>gameState = gameState.extend (initialGameState L)
        (timedGameState.fields \<lparr>white = 0, black = 0\<rparr> \<lparr>white = 300, black = 300\<rparr>),
      actionMode = Move,
      gameConfig = \<lparr>timeLimit = 5, removalsPerPlayer = 3, gameStarted = False\<rparr>,
      possibleMoves = []\<rparr>"

section \<open>The rule engine of the specification\<close>

text \<open>
  Modelled from the spec: the module \<^verbatim>\<open>@/utils/chessLogic\<close> (initializeBoard,
  isValidMove, makeMove, isInCheck, isCheckmate, updateCastlingRights) is missing from
  the sources. The definitions of this section follow sections 4.1 to 4.7 of the
  specification. Where the specification is silent the usual conventions of chess are
  taken: row 0 is Black's back rank and row 7 White's, so that White's pawns start on
  row 6 and advance towards row 0; the kings start on column 4, the rooks on columns 0
  and 7; a castling king lands on column 6 or 2 and its rook on column 5 or 3.
\<close>

text \<open>4.1: positions are bounds-checked; the engine only reads squares of the grid.\<close>

definition onBoard :: "position \<Rightarrow> bool" where
  "onBoard p = (0 \<le> fst p \<and> fst p < 8 \<and> 0 \<le> snd p \<and> snd p < 8)"

definition pieceAt :: "board \<Rightarrow> position \<Rightarrow> piece option" where
  "pieceAt b p = (case boardAt b (fst p) (snd p) of Inl e \<Rightarrow> None | Inr v \<Rightarrow> v)"

definition setAt :: "board \<Rightarrow> position \<Rightarrow> piece option \<Rightarrow> board" where
  "setAt b p v =
     (if 0 \<le> fst p \<and> fst p < int (length b) \<and> 0 \<le> snd p \<and> snd p < int (length (b ! nat (fst p)))
      then b[nat (fst p) := (b ! nat (fst p))[nat (snd p) := v]]
      else b)"

definition allSquares :: "position list" where
  "allSquares = concat (map (\<lambda>r. map (\<lambda>c. (r, c)) [0..7]) [0..7])"

definition backRank :: "player \<Rightarrow> piece option list" where
  "backRank c = map (\<lambda>t. Some \<lparr>ptype = t, color = c\<rparr>)
                  [Rook, Knight, Bishop, Queen, King, Bishop, Knight, Rook]"

text \<open>Modelled from the spec: \<^verbatim>\<open>initializeBoard\<close>, the standard starting arrangement (4.1).\<close>

definition initializeBoard_spec :: board where
  "initializeBoard_spec =
     [backRank Black, replicate 8 (Some \<lparr>ptype = Pawn, color = Black\<rparr>)]
     @ replicate 4 (replicate 8 None)
     @ [replicate 8 (Some \<lparr>ptype = Pawn, color = White\<rparr>), backRank White]"

text \<open>4.2: the ledger as a filter predicate; a free square is empty and not removed.\<close>

definition isRemoved :: "positionKey set \<Rightarrow> position \<Rightarrow> bool" where
  "isRemoved rs p = (positionKey (fst p) (snd p) \<in> rs)"

definition free :: "board \<Rightarrow> positionKey set \<Rightarrow> position \<Rightarrow> bool" where
  "free b rs p = (pieceAt b p = None \<and> \<not> isRemoved rs p)"

text \<open>
  4.3, knight and king: the destination must not be removed and must not be occupied by a
  same-color piece.
\<close>

definition landable :: "board \<Rightarrow> positionKey set \<Rightarrow> player \<Rightarrow> position \<Rightarrow> bool" where
  "landable b rs c p = (\<not> isRemoved rs p \<and> \<not> ownPiece (pieceAt b p) c)"

definition forward :: "player \<Rightarrow> int" where
  "forward c = (if c = White then - 1 else 1)"

definition startRank :: "player \<Rightarrow> int" where
  "startRank c = (if c = White then 6 else 1)"

definition homeRank :: "player \<Rightarrow> int" where
  "homeRank c = (if c = White then 7 else 0)"

text \<open>
  4.3, pawn: one square forward onto an empty, non-removed square; two squares forward from
  the starting rank if both squares are empty and non-removed; a diagonal capture onto an
  enemy-occupied, non-removed square.
\<close>

definition pawnMove :: "board \<Rightarrow> positionKey set \<Rightarrow> player \<Rightarrow> position \<Rightarrow> position \<Rightarrow> bool" where
  "pawnMove b rs c from to =
     ((snd to = snd from \<and> fst to = fst from + forward c \<and> free b rs to)
      \<or> (snd to = snd from \<and> fst from = startRank c \<and> fst to = fst from + 2 * forward c
          \<and> free b rs (fst from + forward c, snd from) \<and> free b rs to)
      \<or> (\<bar>snd to - snd from\<bar> = 1 \<and> fst to = fst from + forward c
          \<and> ownPiece (pieceAt b to) (opponent c) \<and> \<not> isRemoved rs to))"

text \<open>4.5, attack mode: a pawn attacks diagonally only.\<close>

definition pawnAttack :: "positionKey set \<Rightarrow> player \<Rightarrow> position \<Rightarrow> position \<Rightarrow> bool" where
  "pawnAttack rs c from to =
     (\<bar>snd to - snd from\<bar> = 1 \<and> fst to = fst from + forward c \<and> \<not> isRemoved rs to)"

definition knightMove :: "board \<Rightarrow> positionKey set \<Rightarrow> player \<Rightarrow> position \<Rightarrow> position \<Rightarrow> bool" where
  "knightMove b rs c from to =
     (((\<bar>fst to - fst from\<bar> = 1 \<and> \<bar>snd to - snd from\<bar> = 2)
       \<or> (\<bar>fst to - fst from\<bar> = 2 \<and> \<bar>snd to - snd from\<bar> = 1))
      \<and> landable b rs c to)"

definition kingStep :: "board \<Rightarrow> positionKey set \<Rightarrow> player \<Rightarrow> position \<Rightarrow> position \<Rightarrow> bool" where
  "kingStep b rs c from to =
     (max \<bar>fst to - fst from\<bar> \<bar>snd to - snd from\<bar> = 1 \<and> landable b rs c to)"

text \<open>
  4.3, bishop, rook and queen: a ray leaves the piece in one of its directions and stops at
  the first occupied or removed square. A destination on the ray is reached when every
  square strictly between the piece and the destination is free; the destination itself is
  never a removed square and holds no piece of the mover's color.
\<close>

definition rookLine :: "position \<Rightarrow> position \<Rightarrow> bool" where
  "rookLine from to = (from \<noteq> to \<and> (fst from = fst to \<or> snd from = snd to))"

definition bishopLine :: "position \<Rightarrow> position \<Rightarrow> bool" where
  "bishopLine from to = (from \<noteq> to \<and> \<bar>fst to - fst from\<bar> = \<bar>snd to - snd from\<bar>)"

definition between :: "position \<Rightarrow> position \<Rightarrow> position list" where
  "between from to =
     (let dr = fst to - fst from; dc = snd to - snd from in
      map (\<lambda>k. (fst from + k * sgn dr, snd from + k * sgn dc)) [1..max \<bar>dr\<bar> \<bar>dc\<bar> - 1])"

definition rayClear :: "board \<Rightarrow> positionKey set \<Rightarrow> position \<Rightarrow> position \<Rightarrow> bool" where
  "rayClear b rs from to = list_all (free b rs) (between from to)"

definition slide :: "board \<Rightarrow> positionKey set \<Rightarrow> player \<Rightarrow> position \<Rightarrow> position \<Rightarrow> bool" where
  "slide b rs c from to = (rayClear b rs from to \<and> landable b rs c to)"

text \<open>The movement pattern of a piece, castling apart; and the same in attack mode.\<close>

definition pieceMove :: "board \<Rightarrow> positionKey set \<Rightarrow> piece \<Rightarrow> position \<Rightarrow> position \<Rightarrow> bool" where
  "pieceMove b rs pc from to =
     (case ptype pc of
        Pawn \<Rightarrow> pawnMove b rs (color pc) from to
      | Knight \<Rightarrow> knightMove b rs (color pc) from to
      | Bishop \<Rightarrow> bishopLine from to \<and> slide b rs (color pc) from to
      | Rook \<Rightarrow> rookLine from to \<and> slide b rs (color pc) from to
      | Queen \<Rightarrow> (rookLine from to \<or> bishopLine from to) \<and> slide b rs (color pc) from to
      | King \<Rightarrow> kingStep b rs (color pc) from to)"

definition attacks :: "board \<Rightarrow> positionKey set \<Rightarrow> position \<Rightarrow> position \<Rightarrow> bool" where
  "attacks b rs from to =
     (case pieceAt b from of
        None \<Rightarrow> False
      | Some pc \<Rightarrow>
          if ptype pc = Pawn then pawnAttack rs (color pc) from to
          else pieceMove b rs pc from to)"

definition squareAttacked :: "board \<Rightarrow> positionKey set \<Rightarrow> player \<Rightarrow> position \<Rightarrow> bool" where
  "squareAttacked b rs attacker p =
     list_ex (\<lambda>from. ownPiece (pieceAt b from) attacker \<and> attacks b rs from p) allSquares"

text \<open>4.5: locate the king, then test every enemy piece in attack mode.\<close>

definition findKing :: "board \<Rightarrow> player \<Rightarrow> position option" where
  "findKing b c = find (\<lambda>p. pieceAt b p = Some \<lparr>ptype = King, color = c\<rparr>) allSquares"

text \<open>Modelled from the spec: \<^verbatim>\<open>isInCheck\<close> (4.5).\<close>

definition isInCheck_spec :: "board \<Rightarrow> player \<Rightarrow> positionKey set \<Rightarrow> bool" where
  "isInCheck_spec b c rs =
     (case findKing b c of None \<Rightarrow> False | Some k \<Rightarrow> squareAttacked b rs (opponent c) k)"

text \<open>
  4.6: castling is legal only when the right is available, the king is not in check, all
  squares between king and rook are empty and non-removed, and the start, intermediate and
  destination squares of the king are not attacked.
\<close>

fun sideFlag :: "sideFlags \<Rightarrow> player \<Rightarrow> bool \<Rightarrow> bool" where
  "sideFlag f White True = whiteKingside f"
| "sideFlag f White False = whiteQueenside f"
| "sideFlag f Black True = blackKingside f"
| "sideFlag f Black False = blackQueenside f"

fun setSideFlag :: "sideFlags \<Rightarrow> player \<Rightarrow> bool \<Rightarrow> bool \<Rightarrow> sideFlags" where
  "setSideFlag f White True v = f\<lparr>whiteKingside := v\<rparr>"
| "setSideFlag f White False v = f\<lparr>whiteQueenside := v\<rparr>"
| "setSideFlag f Black True v = f\<lparr>blackKingside := v\<rparr>"
| "setSideFlag f Black False v = f\<lparr>blackQueenside := v\<rparr>"

definition castleMove ::
  "board \<Rightarrow> positionKey set \<Rightarrow> 'a gameState_scheme \<Rightarrow> piece \<Rightarrow> position \<Rightarrow> position \<Rightarrow> bool" where
  "castleMove b rs gs pc from to =
     (let c = color pc; row = homeRank c; kingside = (snd to = 6) in
      ptype pc = King \<and> from = (row, 4) \<and> (to = (row, 6) \<or> to = (row, 2))
      \<and> sideFlag (castlingRights gs) c kingside
      \<and> \<not> isInCheck_spec b c rs
      \<and> rayClear b rs from (row, if kingside then 7 else 0)
      \<and> list_all (\<lambda>p. \<not> squareAttacked b rs (opponent c) p)
           [from, (row, if kingside then 5 else 3), to])"

text \<open>4.3 with 4.6: the pseudo-legal moves.\<close>

text \<open>Modelled from the spec: \<^verbatim>\<open>isValidMove\<close> (4.3 and 4.6).\<close>

definition isValidMove_spec ::
  "board \<Rightarrow> position \<Rightarrow> position \<Rightarrow> positionKey set \<Rightarrow> 'a gameState_scheme \<Rightarrow> bool" where
  "isValidMove_spec b from to rs gs =
     (onBoard from \<and> onBoard to \<and>
      (case pieceAt b from of
         None \<Rightarrow> False
       | Some pc \<Rightarrow> pieceMove b rs pc from to \<or> castleMove b rs gs pc from to))"

text \<open>
  4.4 and 4.6: a move is applied to a copy of the board; a king that moves two columns
  castles, and the rook of that side moves with it.
\<close>

text \<open>Modelled from the spec: \<^verbatim>\<open>makeMove\<close> (4.4 and 4.6).\<close>

definition makeMove_spec ::
  "board \<Rightarrow> position \<Rightarrow> position \<Rightarrow> 'a gameState_scheme \<Rightarrow> board \<times> bool" where
  "makeMove_spec b from to gs =
     (case pieceAt b from of
        None \<Rightarrow> (b, False)
      | Some pc \<Rightarrow>
          (let moved = setAt (setAt b from None) to (Some pc);
               castling = (ptype pc = King \<and> fst to = fst from \<and> \<bar>snd to - snd from\<bar> = 2);
               rookFrom = (fst from, if snd from < snd to then 7 else 0);
               rookTo = (fst from, if snd from < snd to then 5 else 3)
           in if castling
              then (setAt (setAt moved rookFrom None) rookTo (pieceAt b rookFrom), True)
              else (moved, False)))"

text \<open>
  4.6: a right is revoked when the king of that color moves (both sides), when the rook of
  that side moves, or when that rook is captured; the moved-flags record the first two.
\<close>

definition revokeKing :: "player \<Rightarrow> 'a gameState_scheme \<Rightarrow> 'a gameState_scheme" where
  "revokeKing c gs =
     gs\<lparr>castlingRights := setSideFlag (setSideFlag (castlingRights gs) c True False) c False False,
        kingMoved := setPlayer (kingMoved gs) c True\<rparr>"

definition revokeRook :: "player \<Rightarrow> bool \<Rightarrow> bool \<Rightarrow> 'a gameState_scheme \<Rightarrow> 'a gameState_scheme" where
  "revokeRook c kingside moved gs =
     gs\<lparr>castlingRights := setSideFlag (castlingRights gs) c kingside False,
        rookMoved := (if moved then setSideFlag (rookMoved gs) c kingside True else rookMoved gs)\<rparr>"

definition rookCorner :: "piece option \<Rightarrow> position \<Rightarrow> (player \<times> bool) option" where
  "rookCorner p pos =
     (case p of
        None \<Rightarrow> None
      | Some pc \<Rightarrow>
          if ptype pc = Rook \<and> pos = (homeRank (color pc), 7) then Some (color pc, True)
          else if ptype pc = Rook \<and> pos = (homeRank (color pc), 0) then Some (color pc, False)
          else None)"

text \<open>Modelled from the spec: \<^verbatim>\<open>updateCastlingRights\<close> (4.6).\<close>

definition updateCastlingRights_spec ::
  "'a gameState_scheme \<Rightarrow> position \<Rightarrow> position \<Rightarrow> 'a gameState_scheme" where
  "updateCastlingRights_spec gs from to =
     (let b = board gs;
          gs1 = (case pieceAt b from of
                   None \<Rightarrow> gs
                 | Some pc \<Rightarrow>
                     if ptype pc = King then revokeKing (color pc) gs
                     else (case rookCorner (Some pc) from of
                             None \<Rightarrow> gs
                           | Some (c, kingside) \<Rightarrow> revokeRook c kingside True gs))
      in case rookCorner (pieceAt b to) to of
           None \<Rightarrow> gs1
         | Some (c, kingside) \<Rightarrow> revokeRook c kingside False gs1)"

text \<open>
  4.7: checkmate is being in check with no move, over every piece of the player and every
  pseudo-legal destination, that the legality filter lets through.
\<close>

definition legalMove ::
  "board \<Rightarrow> player \<Rightarrow> positionKey set \<Rightarrow> 'a gameState_scheme \<Rightarrow> position \<Rightarrow> position \<Rightarrow> bool" where
  "legalMove b c rs gs from to =
     (isValidMove_spec b from to rs gs
      \<and> \<not> isInCheck_spec (fst (makeMove_spec b from to gs)) c rs)"

text \<open>Modelled from the spec: \<^verbatim>\<open>isCheckmate\<close> (4.7).\<close>

definition isCheckmate_spec ::
  "board \<Rightarrow> player \<Rightarrow> positionKey set \<Rightarrow> 'a gameState_scheme \<Rightarrow> bool" where
  "isCheckmate_spec b c rs gs =
     (isInCheck_spec b c rs
      \<and> \<not> list_ex (\<lambda>from. ownPiece (pieceAt b from) c
                    \<and> list_ex (legalMove b c rs gs from) allSquares) allSquares)"

text \<open>Modelled from the spec: the module \<^verbatim>\<open>@/utils/chessLogic\<close> as a whole.\<close>

definition chessLogic_spec :: "('a gameState_scheme) chessLogic" where
  "chessLogic_spec =
     \<lparr>initializeBoard = initializeBoard_spec,
      isValidMove = isValidMove_spec,
      makeMove = makeMove_spec,
      isInCheck = isInCheck_spec,
      isCheckmate = isCheckmate_spec,
      updateCastlingRights = updateCastlingRights_spec\<rparr>"

section \<open>Reachable states\<close>

text \<open>
  The states a component can be in: the initial state (which is also what
  \<^verbatim>\<open>resetGame\<close> writes), and every state an event leads to from a reachable state. The
  events are a press on a square that returns normally, a tap on one of the two mode
  buttons and, for the controller with clocks, a firing of the clock's interval, a change
  of the settings and the start of the game. The screens restrict when these events can
  occur; ignoring that only adds states.
\<close>

inductive reachable_index :: "gameState chessLogic \<Rightarrow> gameState shell \<Rightarrow> bool"
  for L :: "gameState chessLogic" where
  ri_reset: "reachable_index L (resetGame_index L)"
| ri_press: "reachable_index L u \<Longrightarrow> handleSquarePress_index L u row col = Inr (u', al)
             \<Longrightarrow> reachable_index L u'"
| ri_mode: "reachable_index L u \<Longrightarrow> reachable_index L (u\<lparr>actionMode := m\<rparr>)"

inductive reachable :: "timedGameState chessLogic \<Rightarrow> timedGameState timedShell \<Rightarrow> bool"
  for L :: "timedGameState chessLogic" where
  r_reset: "reachable L (resetGame L)"
| r_press: "reachable L u \<Longrightarrow> handleSquarePress L u row col = Inr (u', al) \<Longrightarrow> reachable L u'"
| r_mode: "reachable L u \<Longrightarrow> reachable L (u\<lparr>actionMode := m\<rparr>)"
| r_tick: "reachable L u \<Longrightarrow> reachable L (fst (timerTick u))"
| r_settings: "reachable L u \<Longrightarrow> reachable L (handleSettingsChange minutes quota u)"
| r_start: "reachable L u \<Longrightarrow> reachable L (startGame u)"

section \<open>What a press can do to the game state\<close>

text \<open>
  Both controllers change the game state in one of five ways: not at all (the game is
  over, or the attempt is rejected, or nothing is selectable), by removing a square, by
  clearing the selection, by selecting the pressed square, or by applying a move. The
  relation is used to prove properties of both controllers at once.
\<close>

inductive gameStep ::
  "('a gameState_scheme) chessLogic \<Rightarrow> actionMode \<Rightarrow> 'a gameState_scheme \<Rightarrow> position
    \<Rightarrow> 'a gameState_scheme \<Rightarrow> bool"
  for L :: "('a gameState_scheme) chessLogic" where
  unchanged: "gameStep L m gs pos gs"
| removed: "\<not> gameOver gs \<Longrightarrow> positionKey (fst pos) (snd pos) \<notin> removedSquares gs
    \<Longrightarrow> boardAt (board gs) (fst pos) (snd pos) = Inr None
    \<Longrightarrow> removedSquares gs' = insert (positionKey (fst pos) (snd pos)) (removedSquares gs)
    \<Longrightarrow> currentPlayer gs' = opponent (currentPlayer gs)
    \<Longrightarrow> board gs' = board gs \<Longrightarrow> selectedSquare gs' = selectedSquare gs
    \<Longrightarrow> gameOver gs' = gameOver gs \<Longrightarrow> winner gs' = winner gs
    \<Longrightarrow> castlingRights gs' = castlingRights gs \<Longrightarrow> kingMoved gs' = kingMoved gs
    \<Longrightarrow> rookMoved gs' = rookMoved gs
    \<Longrightarrow> gameStep L Remove gs pos gs'"
| deselected: "\<not> gameOver gs \<Longrightarrow> selectedSquare gs = Some sel
    \<Longrightarrow> sel = pos \<or> \<not> isValidMove L (board gs) sel pos (removedSquares gs) gs
    \<Longrightarrow> gameStep L Move gs pos (gs\<lparr>selectedSquare := None\<rparr>)"
| selected: "\<not> gameOver gs \<Longrightarrow> boardAt (board gs) (fst pos) (snd pos) = Inr (Some pc)
    \<Longrightarrow> color pc = currentPlayer gs
    \<Longrightarrow> gameStep L Move gs pos (gs\<lparr>selectedSquare := Some pos\<rparr>)"
| moved: "\<not> gameOver gs \<Longrightarrow> selectedSquare gs = Some sel \<Longrightarrow> sel \<noteq> pos
    \<Longrightarrow> isValidMove L (board gs) sel pos (removedSquares gs) gs
    \<Longrightarrow> \<not> leavesKingInCheck L gs sel pos
    \<Longrightarrow> gameStep L Move gs pos (appliedMove L gs sel pos)"

section \<open>Vocabulary of the claims\<close>

text \<open>A square is occupied when it holds a piece.\<close>

definition occupied :: "board \<Rightarrow> int \<Rightarrow> int \<Rightarrow> bool" where
  "occupied b row col = (case boardAt b row col of Inr (Some pc) \<Rightarrow> True | _ \<Rightarrow> False)"

text \<open>The quota of the player to move is exhausted.\<close>

definition quotaExhausted :: "gameConfig \<Rightarrow> 'a timedGameState_scheme \<Rightarrow> bool" where
  "quotaExhausted cfg gs = (removalsPerPlayer cfg \<le> atPlayer (removalsUsed gs) (currentPlayer gs))"

text \<open>
  A legal move of the selected piece to the pressed square: pseudo-legal, and the mover's
  king is not attacked afterwards. Pressing the selected square itself is never a move.
\<close>

definition legalMovePress ::
  "('a gameState_scheme) chessLogic \<Rightarrow> 'a gameState_scheme \<Rightarrow> position \<Rightarrow> bool" where
  "legalMovePress L gs pos =
     (case selectedSquare gs of
        None \<Rightarrow> False
      | Some sel \<Rightarrow> sel \<noteq> pos \<and> isValidMove L (board gs) sel pos (removedSquares gs) gs
                    \<and> \<not> leavesKingInCheck L gs sel pos)"

text \<open>A legal removal: the square is empty and not yet removed (and the quota allows it).\<close>

definition legalRemoval_index :: "'a gameState_scheme \<Rightarrow> int \<Rightarrow> int \<Rightarrow> bool" where
  "legalRemoval_index gs row col =
     (positionKey row col \<notin> removedSquares gs \<and> boardAt (board gs) row col = Inr None)"

definition legalRemoval :: "gameConfig \<Rightarrow> 'a timedGameState_scheme \<Rightarrow> int \<Rightarrow> int \<Rightarrow> bool" where
  "legalRemoval cfg gs row col = (\<not> quotaExhausted cfg gs \<and> legalRemoval_index gs row col)"

text \<open>The alerts that tell the user an attempt was rejected.\<close>

fun isRejection :: "alert \<Rightarrow> bool" where
  "isRejection (LimitReached n) = True"
| "isRejection AlreadyRemoved = True"
| "isRejection SquareOccupied = True"
| "isRejection LeavesKingInCheck = True"
| "isRejection a = False"

text \<open>Three properties that every reachable state has.\<close>

text \<open>The winner is null as long as the game runs.\<close>

definition noWinnerYet :: "'a gameState_scheme \<Rightarrow> bool" where
  "noWinnerYet gs = (gameOver gs \<or> winner gs = None)"

text \<open>The selected square, if any, holds a piece.\<close>

definition selectionOccupied :: "'a gameState_scheme \<Rightarrow> bool" where
  "selectionOccupied gs =
     (case selectedSquare gs of None \<Rightarrow> True | Some p \<Rightarrow> occupied (board gs) (fst p) (snd p))"

text \<open>No removed square holds a piece.\<close>

definition removedEmpty :: "'a gameState_scheme \<Rightarrow> bool" where
  "removedEmpty gs = (\<forall>r \<in> removedSquares gs. boardAt (board gs) (fst r) (snd r) = Inr None)"

text \<open>
  The selected square, if any, was set by a press made in a reachable state with the same
  board, in which that square held a piece of the player then to move.
\<close>

definition selectionFromOwn :: "timedGameState chessLogic \<Rightarrow> timedGameState timedShell \<Rightarrow> bool" where
  "selectionFromOwn L u =
     (\<forall>p. selectedSquare (gameState u) = Some p \<longrightarrow>
        (\<exists>u0 u1 al pc. reachable L u0
           \<and> handleSquarePress L u0 (fst p) (snd p) = Inr (u1, al)
           \<and> selectedSquare (gameState u1) = Some p
           \<and> board (gameState u0) = board (gameState u)
           \<and> boardAt (board (gameState u0)) (fst p) (snd p) = Inr (Some pc)
           \<and> color pc = currentPlayer (gameState u0)))"

definition selectionFromOwn_index :: "gameState chessLogic \<Rightarrow> gameState shell \<Rightarrow> bool" where
  "selectionFromOwn_index L u =
     (\<forall>p. selectedSquare (gameState u) = Some p \<longrightarrow>
        (\<exists>u0 u1 al pc. reachable_index L u0
           \<and> handleSquarePress_index L u0 (fst p) (snd p) = Inr (u1, al)
           \<and> selectedSquare (gameState u1) = Some p
           \<and> board (gameState u0) = board (gameState u)
           \<and> boardAt (board (gameState u0)) (fst p) (snd p) = Inr (Some pc)
           \<and> color pc = currentPlayer (gameState u0)))"

section \<open>Some games\<close>

text \<open>
  A sequence of presses, each made on the state the previous one left. A press that
  throws leaves the state as it was.
\<close>

fun presses_index ::
  "('a gameState_scheme) chessLogic \<Rightarrow> ('a gameState_scheme, 'b) shell_scheme \<Rightarrow> position list
    \<Rightarrow> ('a gameState_scheme, 'b) shell_scheme" where
  "presses_index L u [] = u"
| "presses_index L u (p # ps) =
     (case handleSquarePress_index L u (fst p) (snd p) of
        Inl e \<Rightarrow> presses_index L u ps
      | Inr r \<Rightarrow> presses_index L (fst r) ps)"

fun presses ::
  "('a timedGameState_scheme) chessLogic \<Rightarrow> ('a timedGameState_scheme, 'b) timedShell_scheme
    \<Rightarrow> position list \<Rightarrow> ('a timedGameState_scheme, 'b) timedShell_scheme" where
  "presses L u [] = u"
| "presses L u (p # ps) =
     (case handleSquarePress L u (fst p) (snd p) of
        Inl e \<Rightarrow> presses L u ps
      | Inr r \<Rightarrow> presses L (fst r) ps)"

text \<open>The two controllers over the rule engine of the specification.\<close>

definition specLogic :: "timedGameState chessLogic" where
  "specLogic = chessLogic_spec"

definition specLogic_index :: "gameState chessLogic" where
  "specLogic_index = chessLogic_spec"

text \<open>
  White opens 1. e4 e5 2. Qh5, and Black selects the pawn on f7, which shields the black
  king from the queen.
\<close>

definition queenPin :: "position list" where
  "queenPin = [(6, 4), (4, 4), (1, 4), (3, 4), (7, 3), (3, 7), (1, 5)]"

definition pinned :: "timedGameState timedShell" where
  "pinned = presses specLogic (resetGame specLogic) queenPin"

definition pinned_index :: "gameState shell" where
  "pinned_index = presses_index specLogic_index (resetGame_index specLogic_index) queenPin"

text \<open>
  The fool's mate 1. f3 e5 2. g4 Qh4, first stopped with the queen selected, then with the
  queen on h4.
\<close>

definition foolsMate :: "position list" where
  "foolsMate = [(6, 5), (5, 5), (1, 4), (3, 4), (6, 6), (4, 6), (0, 3)]"

definition beforeMate :: "timedGameState timedShell" where
  "beforeMate = presses specLogic (resetGame specLogic) foolsMate"

definition beforeMate_index :: "gameState shell" where
  "beforeMate_index = presses_index specLogic_index (resetGame_index specLogic_index) foolsMate"

definition mated :: "timedGameState timedShell" where
  "mated = presses specLogic beforeMate [(4, 7)]"

definition mated_index :: "gameState shell" where
  "mated_index = presses_index specLogic_index beforeMate_index [(4, 7)]"

text \<open>White selects the pawn on e2, and then presses e5, three squares ahead.\<close>

definition e2Selected :: "timedGameState timedShell" where
  "e2Selected = presses specLogic (resetGame specLogic) [(6, 4)]"

definition e2Selected_index :: "gameState shell" where
  "e2Selected_index = presses_index specLogic_index (resetGame_index specLogic_index) [(6, 4)]"

definition e2Dropped :: "timedGameState timedShell" where
  "e2Dropped = presses specLogic e2Selected [(3, 4)]"

definition e2Dropped_index :: "gameState shell" where
  "e2Dropped_index = presses_index specLogic_index e2Selected_index [(3, 4)]"



text \<open>The initial position with one second left on White's clock.\<close>

definition lastSecond :: "timedGameState timedShell" where
  "lastSecond = handleTimeUpdate White 1 (resetGame specLogic)"

text \<open>
  The initial position in remove mode, and the same after the square e4 has been removed;
  the initial position in remove mode when White has already used three removals.
\<close>

definition removeMode :: "timedGameState timedShell" where
  "removeMode = (resetGame specLogic)\<lparr>actionMode := Remove\<rparr>"

definition removeMode_index :: "gameState shell" where
  "removeMode_index = (resetGame_index specLogic_index)\<lparr>actionMode := Remove\<rparr>"

definition removedE4 :: "timedGameState timedShell" where
  "removedE4 = presses specLogic removeMode [(4, 4)]"

definition removedE4_index :: "gameState shell" where
  "removedE4_index = presses_index specLogic_index removeMode_index [(4, 4)]"

definition quotaUsed :: "timedGameState timedShell" where
  "quotaUsed = removeMode\<lparr>gameState := (gameState removeMode)\<lparr>removalsUsed := \<lparr>white = 3, black = 0\<rparr>\<rparr>\<rparr>"

text \<open>
  1. Nf3 a6 2. g3 a5 3. Bg2 a4, after which White switches to remove mode and presses the
  empty square g1.
\<close>

definition kingsideCleared :: "position list" where
  "kingsideCleared = [(7, 6), (5, 5), (1, 0), (2, 0), (6, 6), (5, 6), (2, 0), (3, 0),
                      (7, 5), (6, 6), (3, 0), (4, 0)]"

definition g1Removed :: "timedGameState timedShell" where
  "g1Removed = presses specLogic
     ((presses specLogic (resetGame specLogic) kingsideCleared)\<lparr>actionMode := Remove\<rparr>) [(7, 6)]"

definition g1Removed_index :: "gameState shell" where
  "g1Removed_index = presses_index specLogic_index
     ((presses_index specLogic_index (resetGame_index specLogic_index) kingsideCleared)
        \<lparr>actionMode := Remove\<rparr>) [(7, 6)]"

section \<open>Basic facts\<close>

lemma opponent_neq: "opponent p \<noteq> p"
  by (simp add: opponent_def)

lemma ownPiece_Some: "ownPiece p c \<Longrightarrow> \<exists>pc. p = Some pc \<and> color pc = c"
  by (cases p) (simp_all add: ownPiece_def)

lemma appliedMove_fields:
  "board (appliedMove L gs sel pos) = fst (makeMove L (board gs) sel pos gs)"
  "currentPlayer (appliedMove L gs sel pos) = opponent (currentPlayer gs)"
  "selectedSquare (appliedMove L gs sel pos) = None"
  "gameOver (appliedMove L gs sel pos) =
     isCheckmate L (fst (makeMove L (board gs) sel pos gs)) (opponent (currentPlayer gs))
       (removedSquares gs) (updateCastlingRights L gs sel pos)"
  "winner (appliedMove L gs sel pos) =
     (if isCheckmate L (fst (makeMove L (board gs) sel pos gs)) (opponent (currentPlayer gs))
           (removedSquares gs) (updateCastlingRights L gs sel pos)
      then Some (currentPlayer gs) else None)"
  by (simp_all add: appliedMove_def Let_def)

lemma timerTick_keeps:
  "board (gameState (fst (timerTick u))) = board (gameState u)"
  "selectedSquare (gameState (fst (timerTick u))) = selectedSquare (gameState u)"
  "removedSquares (gameState (fst (timerTick u))) = removedSquares (gameState u)"
  by (simp_all add: timerTick_def handleTimeUp_def handleTimeUpdate_def Let_def)

subsection \<open>Each press is a step of the game\<close>

lemma removePress_index_gameStep:
  assumes "removePress_index u row col = Inr (u', al)" "\<not> gameOver (gameState u)"
  shows "gameStep L Remove (gameState u) (row, col) (gameState u')"
  using assms
  by (auto simp: removePress_index_def Let_def split: if_splits sum.splits option.splits
        intro: gameStep.unchanged gameStep.removed)

lemma removePress_gameStep:
  assumes "removePress u row col = Inr (u', al)" "\<not> gameOver (gameState u)"
  shows "gameStep L Remove (gameState u) (row, col) (gameState u')"
  using assms
  by (auto simp: removePress_def Let_def split: if_splits sum.splits option.splits
        intro: gameStep.unchanged gameStep.removed)

lemma gameStep_selected:
  "\<not> gameOver gs \<Longrightarrow> boardAt (board gs) row col = Inr (Some pc) \<Longrightarrow> color pc = currentPlayer gs
   \<Longrightarrow> gameStep L Move gs (row, col) (gs\<lparr>selectedSquare := Some (row, col)\<rparr>)"
  using gameStep.selected [of gs "(row, col)" pc L] by simp

lemma press_index_gameStep:
  assumes "handleSquarePress_index L u row col = Inr (u', al)"
  shows "gameStep L (actionMode u) (gameState u) (row, col) (gameState u')"
proof (cases "gameOver (gameState u)")
  case True
  with assms show ?thesis
    by (simp add: handleSquarePress_index_def gameStep.unchanged)
next
  case live: False
  show ?thesis
  proof (cases "actionMode u")
    case Remove
    with assms live show ?thesis
      by (simp add: handleSquarePress_index_def removePress_index_gameStep)
  next
    case Move
    with assms live show ?thesis
      by (auto simp: handleSquarePress_index_def Let_def
            split: if_splits sum.splits option.splits
            dest!: ownPiece_Some
            intro: gameStep.unchanged gameStep.deselected gameStep_selected gameStep.moved)
  qed
qed

lemma press_gameStep:
  assumes "handleSquarePress L u row col = Inr (u', al)"
  shows "gameStep L (actionMode u) (gameState u) (row, col) (gameState u')"
proof (cases "gameOver (gameState u)")
  case True
  with assms show ?thesis
    by (simp add: handleSquarePress_def gameStep.unchanged)
next
  case live: False
  show ?thesis
  proof (cases "actionMode u")
    case Remove
    with assms live show ?thesis
      by (simp add: handleSquarePress_def removePress_gameStep)
  next
    case Move
    with assms live show ?thesis
      by (auto simp: handleSquarePress_def Let_def
            split: if_splits sum.splits option.splits
            dest!: ownPiece_Some
            intro: gameStep.unchanged gameStep.deselected gameStep_selected gameStep.moved)
  qed
qed

subsection \<open>The outcomes of a press, case by case\<close>

lemma removePress_index_cases:
  assumes "removePress_index u row col = Inr (u', al)"
  shows "(al \<noteq> [] \<longleftrightarrow> occupied (board (gameState u)) row col
                      \<or> positionKey row col \<in> removedSquares (gameState u))
    \<and> (al \<noteq> [] \<longrightarrow> u' = u)
    \<and> (al = [] \<longrightarrow>
          legalRemoval_index (gameState u) row col
        \<and> u' = u\<lparr>gameState := (gameState u)
                     \<lparr>removedSquares := insert (positionKey row col) (removedSquares (gameState u)),
                      currentPlayer := opponent (currentPlayer (gameState u))\<rparr>,
                  actionMode := Move\<rparr>)"
  using assms
  by (auto simp: removePress_index_def occupied_def legalRemoval_index_def Let_def
        split: if_splits sum.splits option.splits)

lemma removePress_cases:
  assumes "removePress u row col = Inr (u', al)"
  shows "(al \<noteq> [] \<longleftrightarrow> occupied (board (gameState u)) row col
                      \<or> positionKey row col \<in> removedSquares (gameState u)
                      \<or> quotaExhausted (gameConfig u) (gameState u))
    \<and> (al \<noteq> [] \<longrightarrow> u' = u)
    \<and> (al = [] \<longrightarrow>
          legalRemoval (gameConfig u) (gameState u) row col
        \<and> u' = u\<lparr>gameState := (gameState u)
                     \<lparr>removedSquares := insert (positionKey row col) (removedSquares (gameState u)),
                      removalsUsed := setPlayer (removalsUsed (gameState u)) (currentPlayer (gameState u))
                         (atPlayer (removalsUsed (gameState u)) (currentPlayer (gameState u)) + 1),
                      currentPlayer := opponent (currentPlayer (gameState u))\<rparr>,
                  actionMode := Move, possibleMoves := []\<rparr>)"
  using assms
  by (auto simp: removePress_def occupied_def quotaExhausted_def legalRemoval_def
        legalRemoval_index_def Let_def split: if_splits sum.splits option.splits)

lemma jsError_single: "(e :: jsError) = TypeError"
  by (cases e) simp

lemma legalRemoval_index_not_rejected:
  "legalRemoval_index gs row col \<longleftrightarrow>
     \<not> (occupied (board gs) row col \<or> positionKey row col \<in> removedSquares gs)
     \<and> boardAt (board gs) row col \<noteq> Inl TypeError"
  using jsError_single
  by (auto simp: legalRemoval_index_def occupied_def split: sum.splits option.splits)

lemma movePress_index_cases:
  assumes "handleSquarePress_index L u row col = Inr (u', al)"
    "\<not> gameOver (gameState u)" "actionMode u = Move"
  shows "if legalMovePress L (gameState u) (row, col)
         then \<exists>sel. selectedSquare (gameState u) = Some sel
                \<and> u' = u\<lparr>gameState := appliedMove L (gameState u) sel (row, col), actionMode := Move\<rparr>
                \<and> al = appliedAlerts L (gameState u) sel (row, col)
         else currentPlayer (gameState u') = currentPlayer (gameState u)
              \<and> board (gameState u') = board (gameState u)"
  using assms
  by (auto simp: handleSquarePress_index_def legalMovePress_def Let_def
        split: if_splits sum.splits option.splits)

lemma movePress_cases:
  assumes "handleSquarePress L u row col = Inr (u', al)"
    "\<not> gameOver (gameState u)" "actionMode u = Move"
  shows "if legalMovePress L (gameState u) (row, col)
         then \<exists>sel. selectedSquare (gameState u) = Some sel
                \<and> u' = u\<lparr>gameState := appliedMove L (gameState u) sel (row, col),
                          actionMode := Move, possibleMoves := []\<rparr>
                \<and> al = appliedAlerts L (gameState u) sel (row, col)
         else currentPlayer (gameState u') = currentPlayer (gameState u)
              \<and> board (gameState u') = board (gameState u)"
  using assms
  by (auto simp: handleSquarePress_def legalMovePress_def Let_def
        split: if_splits sum.splits option.splits)

lemma selectPress_index_cases:
  assumes "handleSquarePress_index L u row col = Inr (u', al)"
    "\<not> gameOver (gameState u)" "actionMode u = Move"
    "\<not> legalMovePress L (gameState u) (row, col)"
  shows "(u' = u \<and> (al = [] \<or> al = [LeavesKingInCheck]))
       \<or> (al = [] \<and> gameState u' = (gameState u)\<lparr>selectedSquare := None\<rparr>)
       \<or> (al = [] \<and> gameState u' = (gameState u)\<lparr>selectedSquare := Some (row, col)\<rparr>
           \<and> (\<exists>pc. boardAt (board (gameState u)) row col = Inr (Some pc)
                    \<and> color pc = currentPlayer (gameState u)))"
  using assms
  by (auto simp: handleSquarePress_index_def legalMovePress_def Let_def
        split: if_splits sum.splits option.splits dest!: ownPiece_Some)

lemma selectPress_cases:
  assumes "handleSquarePress L u row col = Inr (u', al)"
    "\<not> gameOver (gameState u)" "actionMode u = Move"
    "\<not> legalMovePress L (gameState u) (row, col)"
  shows "(u' = u \<and> (al = [] \<or> al = [LeavesKingInCheck]))
       \<or> (al = [] \<and> gameState u' = (gameState u)\<lparr>selectedSquare := None\<rparr>)
       \<or> (al = [] \<and> gameState u' = (gameState u)\<lparr>selectedSquare := Some (row, col)\<rparr>
           \<and> (\<exists>pc. boardAt (board (gameState u)) row col = Inr (Some pc)
                    \<and> color pc = currentPlayer (gameState u)))"
  using assms
  by (auto simp: handleSquarePress_def legalMovePress_def Let_def
        split: if_splits sum.splits option.splits dest!: ownPiece_Some)

lemma selfCheck_index:
  assumes "\<not> gameOver (gameState u)" "actionMode u = Move"
    "selectedSquare (gameState u) = Some sel" "sel \<noteq> (row, col)"
    "isValidMove L (board (gameState u)) sel (row, col) (removedSquares (gameState u)) (gameState u)"
    "leavesKingInCheck L (gameState u) sel (row, col)"
  shows "handleSquarePress_index L u row col = Inr (u, [LeavesKingInCheck])"
  using assms by (simp add: handleSquarePress_index_def)

lemma selfCheck_timed:
  assumes "\<not> gameOver (gameState u)" "actionMode u = Move"
    "selectedSquare (gameState u) = Some sel" "sel \<noteq> (row, col)"
    "isValidMove L (board (gameState u)) sel (row, col) (removedSquares (gameState u)) (gameState u)"
    "leavesKingInCheck L (gameState u) sel (row, col)"
  shows "handleSquarePress L u row col = Inr (u, [LeavesKingInCheck])"
  using assms by (simp add: handleSquarePress_def)

lemma invalid_index:
  assumes "handleSquarePress_index L u row col = Inr (u', al)"
    "\<not> gameOver (gameState u)" "actionMode u = Move"
    "selectedSquare (gameState u) = Some sel" "sel \<noteq> (row, col)"
    "\<not> isValidMove L (board (gameState u)) sel (row, col) (removedSquares (gameState u)) (gameState u)"
  shows "al = [] \<and> (\<exists>p. boardAt (board (gameState u)) row col = Inr p
     \<and> gameState u' = (gameState u)\<lparr>selectedSquare :=
           (if ownPiece p (currentPlayer (gameState u)) then Some (row, col) else None)\<rparr>)"
  using assms
  by (auto simp: handleSquarePress_index_def Let_def split: sum.splits if_splits)

lemma invalid_timed:
  assumes "handleSquarePress L u row col = Inr (u', al)"
    "\<not> gameOver (gameState u)" "actionMode u = Move"
    "selectedSquare (gameState u) = Some sel" "sel \<noteq> (row, col)"
    "\<not> isValidMove L (board (gameState u)) sel (row, col) (removedSquares (gameState u)) (gameState u)"
  shows "al = [] \<and> (\<exists>p. boardAt (board (gameState u)) row col = Inr p
     \<and> gameState u' = (gameState u)\<lparr>selectedSquare :=
           (if ownPiece p (currentPlayer (gameState u)) then Some (row, col) else None)\<rparr>)"
  using assms
  by (auto simp: handleSquarePress_def Let_def split: sum.splits if_splits)

lemma appliedAlerts_no_rejection: "al = appliedAlerts L gs sel pos \<Longrightarrow> list_all (\<lambda>a. \<not> isRejection a) al"
  by (simp add: appliedAlerts_def Let_def)

lemma turn_index:
  assumes "handleSquarePress_index L u row col = Inr (u', al)"
  shows "if \<not> gameOver (gameState u)
            \<and> (if actionMode u = Remove then legalRemoval_index (gameState u) row col
               else legalMovePress L (gameState u) (row, col))
         then currentPlayer (gameState u') = opponent (currentPlayer (gameState u))
         else currentPlayer (gameState u') = currentPlayer (gameState u)"
proof (cases "gameOver (gameState u)")
  case True
  with assms show ?thesis by (simp add: handleSquarePress_index_def)
next
  case live: False
  show ?thesis
  proof (cases "actionMode u")
    case Remove
    with assms live have "removePress_index u row col = Inr (u', al)"
      by (simp add: handleSquarePress_index_def)
    from removePress_index_cases [OF this] live Remove show ?thesis
      by (cases "al = []") (auto simp: legalRemoval_index_not_rejected)
  next
    case Move
    from movePress_index_cases [OF assms live Move] live Move show ?thesis
      by (auto simp: appliedMove_fields split: if_splits)
  qed
qed

lemma turn_timed:
  assumes "handleSquarePress L u row col = Inr (u', al)"
  shows "if \<not> gameOver (gameState u)
            \<and> (if actionMode u = Remove then legalRemoval (gameConfig u) (gameState u) row col
               else legalMovePress L (gameState u) (row, col))
         then currentPlayer (gameState u') = opponent (currentPlayer (gameState u))
         else currentPlayer (gameState u') = currentPlayer (gameState u)"
proof (cases "gameOver (gameState u)")
  case True
  with assms show ?thesis by (simp add: handleSquarePress_def)
next
  case live: False
  show ?thesis
  proof (cases "actionMode u")
    case Remove
    with assms live have "removePress u row col = Inr (u', al)"
      by (simp add: handleSquarePress_def)
    from removePress_cases [OF this] live Remove show ?thesis
      by (cases "al = []") (auto simp: legalRemoval_def legalRemoval_index_not_rejected)
  next
    case Move
    from movePress_cases [OF assms live Move] live Move show ?thesis
      by (auto simp: appliedMove_fields split: if_splits)
  qed
qed

lemma rejection_index:
  assumes "handleSquarePress_index L u row col = Inr (u', al)" "al = [a]" "isRejection a"
  shows "u' = u"
proof (cases "gameOver (gameState u)")
  case True
  with assms show ?thesis by (simp add: handleSquarePress_index_def)
next
  case live: False
  show ?thesis
  proof (cases "actionMode u")
    case Remove
    with assms live have "removePress_index u row col = Inr (u', al)"
      by (simp add: handleSquarePress_index_def)
    from removePress_index_cases [OF this] assms(2) show ?thesis by simp
  next
    case Move
    show ?thesis
    proof (cases "legalMovePress L (gameState u) (row, col)")
      case True
      with movePress_index_cases [OF assms(1) live Move] obtain sel
        where "al = appliedAlerts L (gameState u) sel (row, col)" by auto
      from appliedAlerts_no_rejection [OF this] assms(2,3) show ?thesis by simp
    next
      case False
      from selectPress_index_cases [OF assms(1) live Move False] assms(2) show ?thesis by auto
    qed
  qed
qed

lemma rejection_timed:
  assumes "handleSquarePress L u row col = Inr (u', al)" "al = [a]" "isRejection a"
  shows "u' = u"
proof (cases "gameOver (gameState u)")
  case True
  with assms show ?thesis by (simp add: handleSquarePress_def)
next
  case live: False
  show ?thesis
  proof (cases "actionMode u")
    case Remove
    with assms live have "removePress u row col = Inr (u', al)"
      by (simp add: handleSquarePress_def)
    from removePress_cases [OF this] assms(2) show ?thesis by simp
  next
    case Move
    show ?thesis
    proof (cases "legalMovePress L (gameState u) (row, col)")
      case True
      with movePress_cases [OF assms(1) live Move] obtain sel
        where "al = appliedAlerts L (gameState u) sel (row, col)" by auto
      from appliedAlerts_no_rejection [OF this] assms(2,3) show ?thesis by simp
    next
      case False
      from selectPress_cases [OF assms(1) live Move False] assms(2) show ?thesis by auto
    qed
  qed
qed

subsection \<open>Properties of the reachable states\<close>

lemma selectionOccupied_keep:
  "selectionOccupied gs \<Longrightarrow> selectedSquare gs' = selectedSquare gs \<Longrightarrow> board gs' = board gs
   \<Longrightarrow> selectionOccupied gs'"
  by (simp add: selectionOccupied_def cong: option.case_cong)

lemma gameStep_noWinnerYet:
  assumes "gameStep L m gs pos gs'" "noWinnerYet gs"
  shows "noWinnerYet gs'"
  using assms
  by (cases rule: gameStep.cases) (auto simp: noWinnerYet_def appliedMove_fields)

lemma gameStep_selectionOccupied:
  assumes "gameStep L m gs pos gs'" "selectionOccupied gs"
  shows "selectionOccupied gs'"
  using assms
proof (cases rule: gameStep.cases)
  case unchanged
  with assms show ?thesis by simp
next
  case removed
  with assms show ?thesis by (auto intro: selectionOccupied_keep)
next
  case (deselected sel)
  then show ?thesis by (simp add: selectionOccupied_def)
next
  case (selected pc)
  then show ?thesis by (simp add: selectionOccupied_def occupied_def)
next
  case (moved sel)
  then show ?thesis by (simp add: selectionOccupied_def appliedMove_fields)
qed

lemma gameStep_selection:
  assumes "gameStep L m gs pos gs'"
  shows "selectedSquare gs' = None
       \<or> (selectedSquare gs' = selectedSquare gs \<and> board gs' = board gs)
       \<or> (selectedSquare gs' = Some pos \<and> board gs' = board gs
           \<and> currentPlayer gs' = currentPlayer gs
           \<and> (\<exists>pc. boardAt (board gs) (fst pos) (snd pos) = Inr (Some pc)
                    \<and> color pc = currentPlayer gs))"
  using assms
  by (cases rule: gameStep.cases) (auto simp: appliedMove_fields)

lemma reachable_index_noWinnerYet: "reachable_index L u \<Longrightarrow> noWinnerYet (gameState u)"
proof (induction rule: reachable_index.induct)
  case ri_reset
  show ?case by (simp add: noWinnerYet_def resetGame_index_def initialGameState_def)
next
  case (ri_press u row col u' al)
  then show ?case using gameStep_noWinnerYet press_index_gameStep by blast
next
  case (ri_mode u m)
  then show ?case by simp
qed

lemma reachable_noWinnerYet: "reachable L u \<Longrightarrow> noWinnerYet (gameState u)"
proof (induction rule: reachable.induct)
  case r_reset
  show ?case
    by (simp add: noWinnerYet_def resetGame_def initialGameState_def gameState.defs)
next
  case (r_press u row col u' al)
  then show ?case using gameStep_noWinnerYet press_gameStep by blast
next
  case (r_tick u)
  then show ?case
    by (auto simp: timerTick_def handleTimeUp_def handleTimeUpdate_def noWinnerYet_def Let_def)
qed (simp_all add: handleSettingsChange_def startGame_def noWinnerYet_def Let_def)

lemma reachable_index_selectionOccupied:
  "reachable_index L u \<Longrightarrow> selectionOccupied (gameState u)"
proof (induction rule: reachable_index.induct)
  case ri_reset
  show ?case by (simp add: selectionOccupied_def resetGame_index_def initialGameState_def)
next
  case (ri_press u row col u' al)
  then show ?case using gameStep_selectionOccupied press_index_gameStep by blast
next
  case (ri_mode u m)
  then show ?case by simp
qed

lemma reachable_selectionOccupied: "reachable L u \<Longrightarrow> selectionOccupied (gameState u)"
proof (induction rule: reachable.induct)
  case r_reset
  show ?case
    by (simp add: selectionOccupied_def resetGame_def initialGameState_def gameState.defs)
next
  case (r_press u row col u' al)
  then show ?case using gameStep_selectionOccupied press_gameStep by blast
next
  case (r_tick u)
  from r_tick.IH show ?case
    by (rule selectionOccupied_keep) (simp_all add: timerTick_keeps)
next
  case (r_settings u minutes quota)
  from r_settings.IH show ?case
    by (rule selectionOccupied_keep) (simp_all add: handleSettingsChange_def)
next
  case (r_start u)
  from r_start.IH show ?case
    by (rule selectionOccupied_keep) (simp_all add: startGame_def Let_def)
next
  case (r_mode u m)
  then show ?case by simp
qed

subsection \<open>Sequences of presses\<close>

lemma presses_reachable: "reachable L u \<Longrightarrow> reachable L (presses L u ps)"
proof (induction ps arbitrary: u)
  case Nil
  then show ?case by simp
next
  case (Cons p ps)
  show ?case
  proof (cases "handleSquarePress L u (fst p) (snd p)")
    case (Inl e)
    with Cons show ?thesis by simp
  next
    case (Inr r)
    then have "handleSquarePress L u (fst p) (snd p) = Inr (fst r, snd r)" by simp
    with Cons.prems have "reachable L (fst r)" by (rule reachable.r_press)
    with Cons.IH Inr show ?thesis by simp
  qed
qed

lemma presses_index_reachable: "reachable_index L u \<Longrightarrow> reachable_index L (presses_index L u ps)"
proof (induction ps arbitrary: u)
  case Nil
  then show ?case by simp
next
  case (Cons p ps)
  show ?case
  proof (cases "handleSquarePress_index L u (fst p) (snd p)")
    case (Inl e)
    with Cons show ?thesis by simp
  next
    case (Inr r)
    then have "handleSquarePress_index L u (fst p) (snd p) = Inr (fst r, snd r)" by simp
    with Cons.prems have "reachable_index L (fst r)" by (rule reachable_index.ri_press)
    with Cons.IH Inr show ?thesis by simp
  qed
qed

lemma press_as_presses:
  "handleSquarePress L u row col = Inr r \<Longrightarrow> snd r = al
   \<Longrightarrow> handleSquarePress L u row col = Inr (presses L u [(row, col)], al)"
  by (cases r) simp

lemma press_as_presses_index:
  "handleSquarePress_index L u row col = Inr r \<Longrightarrow> snd r = al
   \<Longrightarrow> handleSquarePress_index L u row col = Inr (presses_index L u [(row, col)], al)"
  by (cases r) simp

section \<open>Removed squares in the rule engine of the specification\<close>

lemma boardAt_setAt:
  "boardAt (setAt b p v) r c =
     (if 0 \<le> fst p \<and> fst p < int (length b) \<and> 0 \<le> snd p \<and> snd p < int (length (b ! nat (fst p)))
         \<and> (r, c) = p
      then Inr v else boardAt b r c)"
proof (cases "0 \<le> fst p \<and> fst p < int (length b) \<and> 0 \<le> snd p \<and> snd p < int (length (b ! nat (fst p)))")
  case False
  then show ?thesis by (auto simp: setAt_def)
next
  case inside: True
  show ?thesis
  proof (cases "r < 0 \<or> int (length b) \<le> r")
    case True
    with inside show ?thesis by (auto simp: setAt_def boardAt_def)
  next
    case rowin: False
    show ?thesis
    proof (cases "r = fst p")
      case True
      with inside rowin show ?thesis
        by (cases p) (auto simp: setAt_def boardAt_def nth_list_update)
    next
      case False
      with inside rowin have "nat r \<noteq> nat (fst p)" by auto
      with inside rowin False show ?thesis
        by (cases p) (auto simp: setAt_def boardAt_def nth_list_update)
    qed
  qed
qed

lemma pieceAt_boardAt: "pieceAt b p = Some pc \<Longrightarrow> boardAt b (fst p) (snd p) = Inr (Some pc)"
  by (auto simp: pieceAt_def split: sum.splits)

lemma between_castling:
  "between (r, 4) (r, 7) = [(r, 5), (r, 6)]"
  "between (r, 4) (r, 0) = [(r, 3), (r, 2), (r, 1)]"
  by (simp_all add: between_def upto_rec1)

lemma castleMove_path:
  assumes "castleMove b rs gs pc from to"
  shows "ptype pc = King \<and> from = (homeRank (color pc), 4)
    \<and> ((to = (homeRank (color pc), 6) \<and> free b rs (fst from, 5) \<and> free b rs (fst from, 6))
       \<or> (to = (homeRank (color pc), 2) \<and> free b rs (fst from, 3) \<and> free b rs (fst from, 2)
           \<and> free b rs (fst from, 1)))"
  using assms
  by (auto simp: castleMove_def Let_def rayClear_def between_castling)

lemma isValidMove_spec_dest: "isValidMove_spec b from to rs gs \<Longrightarrow> to \<notin> rs"
  by (auto simp: isValidMove_spec_def pieceMove_def pawnMove_def knightMove_def kingStep_def
        slide_def landable_def free_def isRemoved_def positionKey_def
        split: option.splits pieceType.splits dest!: castleMove_path)

lemma between_mem:
  assumes "\<bar>dr\<bar> \<le> 1" "\<bar>dc\<bar> \<le> 1" "(dr, dc) \<noteq> (0, 0)" "0 < k" "k < n"
  shows "(fst from + k * dr, snd from + k * dc)
           \<in> set (between from (fst from + n * dr, snd from + n * dc))"
proof -
  from assms have n: "0 < n" by simp
  from assms(1) have dr: "dr = - 1 \<or> dr = 0 \<or> dr = 1" by auto
  from assms(2) have dc: "dc = - 1 \<or> dc = 0 \<or> dc = 1" by auto
  from dr n have sr: "sgn (n * dr) = dr" by auto
  from dc n have sc: "sgn (n * dc) = dc" by auto
  from dr dc assms(3) n have "max \<bar>n * dr\<bar> \<bar>n * dc\<bar> = n" by auto
  then have "between from (fst from + n * dr, snd from + n * dc)
      = map (\<lambda>k. (fst from + k * dr, snd from + k * dc)) [1..n - 1]"
    unfolding between_def Let_def using sr sc by simp
  moreover from assms have "k \<in> set [1..n - 1]" by simp
  ultimately show ?thesis by (metis (no_types, lifting) image_eqI set_map)
qed

lemma slider_blocked:
  assumes pc: "pieceAt b from = Some pc" "ptype pc = Bishop \<or> ptype pc = Rook \<or> ptype pc = Queen"
    and d: "\<bar>dr\<bar> \<le> 1" "\<bar>dc\<bar> \<le> 1" and k: "0 < k" "k < n"
    and r: "(fst from + k * dr, snd from + k * dc) \<in> rs"
  shows "\<not> isValidMove_spec b from (fst from + n * dr, snd from + n * dc) rs gs"
proof
  assume valid: "isValidMove_spec b from (fst from + n * dr, snd from + n * dc) rs gs"
  let ?to = "(fst from + n * dr, snd from + n * dc)"
  from pc have notKing: "\<not> castleMove b rs gs pc from ?to"
    by (auto simp: castleMove_def Let_def)
  with valid pc have line: "rookLine from ?to \<or> bishopLine from ?to"
    and clear: "rayClear b rs from ?to"
    by (auto simp: isValidMove_spec_def pieceMove_def slide_def)
  from line have "(dr, dc) \<noteq> (0, 0)"
    by (auto simp: rookLine_def bishopLine_def prod_eq_iff)
  from between_mem [OF d this k]
  have "(fst from + k * dr, snd from + k * dc) \<in> set (between from ?to)" .
  with clear have "free b rs (fst from + k * dr, snd from + k * dc)"
    by (simp add: rayClear_def list_all_iff)
  with r show False by (simp add: free_def isRemoved_def positionKey_def)
qed

lemma castle_blocked:
  assumes pc: "pieceAt b from = Some pc" "ptype pc = King"
    and two: "\<bar>snd to - snd from\<bar> = 2"
    and r: "r \<in> rs" "fst r = fst from"
    and side: "(snd from < snd to \<and> snd from < snd r \<and> snd r < 7)
             \<or> (snd to < snd from \<and> 0 < snd r \<and> snd r < snd from)"
  shows "\<not> isValidMove_spec b from to rs gs"
proof
  assume valid: "isValidMove_spec b from to rs gs"
  from two have "\<not> kingStep b rs (color pc) from to"
    by (auto simp: kingStep_def)
  with valid pc have "castleMove b rs gs pc from to"
    by (auto simp: isValidMove_spec_def pieceMove_def)
  from castleMove_path [OF this] side have path:
    "snd from = 4"
    "snd from < snd to \<longrightarrow> free b rs (fst from, 5) \<and> free b rs (fst from, 6)"
    "snd to < snd from \<longrightarrow> free b rs (fst from, 3) \<and> free b rs (fst from, 2)
        \<and> free b rs (fst from, 1)"
    by auto
  from side path(1) have "snd r = 5 \<or> snd r = 6 \<or> snd r = 3 \<or> snd r = 2 \<or> snd r = 1"
    by arith
  with side path r(2) have "free b rs (fst r, snd r)" by auto
  then have "free b rs r" by simp
  with r(1) show False by (cases r) (simp add: free_def isRemoved_def positionKey_def)
qed

lemma free_not_removed: "free b rs p \<Longrightarrow> p \<notin> rs"
  by (cases p) (simp add: free_def isRemoved_def positionKey_def)

lemma makeMove_spec_removed:
  assumes valid: "isValidMove_spec b from to rs gs"
    and empty: "boardAt b (fst r) (snd r) = Inr None" and r: "r \<in> rs"
  shows "boardAt (fst (makeMove_spec b from to gs)) (fst r) (snd r) = Inr None"
proof -
  from valid obtain pc where pc: "pieceAt b from = Some pc"
    and mv: "pieceMove b rs pc from to \<or> castleMove b rs gs pc from to"
    by (auto simp: isValidMove_spec_def split: option.splits)
  from valid r have rto: "r \<noteq> to" using isValidMove_spec_dest by blast
  let ?moved = "setAt (setAt b from None) to (Some pc)"
  from rto empty have moved: "boardAt ?moved (fst r) (snd r) = Inr None"
    by (auto simp: boardAt_setAt prod_eq_iff)
  show ?thesis
  proof (cases "ptype pc = King \<and> fst to = fst from \<and> \<bar>snd to - snd from\<bar> = 2")
    case False
    with pc moved show ?thesis by (auto simp: makeMove_spec_def Let_def)
  next
    case True
    then have "\<not> kingStep b rs (color pc) from to" by (auto simp: kingStep_def)
    with mv True have "castleMove b rs gs pc from to" by (auto simp: pieceMove_def)
    from castleMove_path [OF this]
    have "(fst from, if snd from < snd to then 5 else 3) \<notin> rs"
      by (auto dest: free_not_removed)
    with r have "r \<noteq> (fst from, if snd from < snd to then 5 else 3)" by auto
    with True pc moved show ?thesis
      by (auto simp: makeMove_spec_def Let_def boardAt_setAt prod_eq_iff)
  qed
qed

lemma updateCastlingRights_spec_keeps:
  "removedSquares (updateCastlingRights_spec gs from to) = removedSquares gs"
  "board (updateCastlingRights_spec gs from to) = board gs"
  by (auto simp: updateCastlingRights_spec_def Let_def revokeKing_def revokeRook_def
        split: option.splits prod.splits)

lemma appliedMove_spec_removedSquares:
  "removedSquares (appliedMove chessLogic_spec gs sel pos) = removedSquares gs"
  by (simp add: appliedMove_def Let_def chessLogic_spec_def updateCastlingRights_spec_keeps)

lemma gameStep_removedEmpty:
  assumes "gameStep chessLogic_spec m gs pos gs'" "removedEmpty gs"
  shows "removedEmpty gs'"
  using assms
proof (cases rule: gameStep.cases)
  case unchanged
  with assms show ?thesis by simp
next
  case removed
  with assms show ?thesis by (auto simp: removedEmpty_def positionKey_def)
next
  case (deselected sel)
  with assms show ?thesis by (simp add: removedEmpty_def)
next
  case (selected pc)
  with assms show ?thesis by (simp add: removedEmpty_def)
next
  case (moved sel)
  then have valid: "isValidMove_spec (board gs) sel pos (removedSquares gs) gs"
    by (simp add: chessLogic_spec_def)
  have rs: "removedSquares gs' = removedSquares gs"
    by (simp add: moved(2) appliedMove_spec_removedSquares)
  have b: "board gs' = fst (makeMove_spec (board gs) sel pos gs)"
    by (simp add: moved(2) appliedMove_fields) (simp add: chessLogic_spec_def)
  show ?thesis
    unfolding removedEmpty_def rs b
  proof
    fix r assume r: "r \<in> removedSquares gs"
    with assms(2) have "boardAt (board gs) (fst r) (snd r) = Inr None"
      by (simp add: removedEmpty_def)
    from makeMove_spec_removed [OF valid this r]
    show "boardAt (fst (makeMove_spec (board gs) sel pos gs)) (fst r) (snd r) = Inr None" .
  qed
qed

lemma reachable_index_removedEmpty:
  "reachable_index specLogic_index u \<Longrightarrow> removedEmpty (gameState u)"
proof (induction rule: reachable_index.induct)
  case ri_reset
  show ?case by (simp add: removedEmpty_def resetGame_index_def initialGameState_def)
next
  case (ri_press u row col u' al)
  from press_index_gameStep [OF ri_press.hyps(2)] ri_press.IH show ?case
    unfolding specLogic_index_def by (rule gameStep_removedEmpty)
next
  case (ri_mode u m)
  then show ?case by simp
qed

lemma reachable_removedEmpty:
  "reachable specLogic u \<Longrightarrow> removedEmpty (gameState u)"
proof (induction rule: reachable.induct)
  case r_reset
  show ?case by (simp add: removedEmpty_def resetGame_def initialGameState_def gameState.defs)
next
  case (r_press u row col u' al)
  from press_gameStep [OF r_press.hyps(2)] r_press.IH show ?case
    unfolding specLogic_def by (rule gameStep_removedEmpty)
next
  case (r_tick u)
  then show ?case by (simp add: removedEmpty_def timerTick_keeps)
next
  case (r_settings u minutes quota)
  then show ?case by (simp add: removedEmpty_def handleSettingsChange_def)
next
  case (r_start u)
  then show ?case by (simp add: removedEmpty_def startGame_def Let_def)
next
  case (r_mode u m)
  then show ?case by simp
qed

lemma spec_isValidMove:
  "isValidMove specLogic = isValidMove_spec" "isValidMove specLogic_index = isValidMove_spec"
  by (simp_all add: specLogic_def specLogic_index_def chessLogic_spec_def)

lemma removedEmpty_dead:
  assumes "removedEmpty gs" "r \<in> removedSquares gs"
  shows "boardAt (board gs) (fst r) (snd r) = Inr None
    \<and> (\<forall>from. \<not> isValidMove_spec (board gs) from r (removedSquares gs) gs)
    \<and> (\<forall>from pc dr dc k n.
          pieceAt (board gs) from = Some pc
          \<and> (ptype pc = Bishop \<or> ptype pc = Rook \<or> ptype pc = Queen)
          \<and> \<bar>dr\<bar> \<le> 1 \<and> \<bar>dc\<bar> \<le> 1 \<and> 0 < k \<and> k < n
          \<and> r = (fst from + k * dr, snd from + k * dc) \<longrightarrow>
          \<not> isValidMove_spec (board gs) from (fst from + n * dr, snd from + n * dc)
               (removedSquares gs) gs)
    \<and> (\<forall>from to pc.
          pieceAt (board gs) from = Some pc \<and> ptype pc = King
          \<and> \<bar>snd to - snd from\<bar> = 2 \<and> fst r = fst from
          \<and> ((snd from < snd to \<and> snd from < snd r \<and> snd r < 7)
              \<or> (snd to < snd from \<and> 0 < snd r \<and> snd r < snd from)) \<longrightarrow>
          \<not> isValidMove_spec (board gs) from to (removedSquares gs) gs)"
proof (intro conjI allI impI)
  from assms show "boardAt (board gs) (fst r) (snd r) = Inr None"
    by (simp add: removedEmpty_def)
next
  fix "from"
  from assms(2) show "\<not> isValidMove_spec (board gs) from r (removedSquares gs) gs"
    using isValidMove_spec_dest by blast
next
  fix "from" :: position and pc dr dc k n
  assume "pieceAt (board gs) from = Some pc
          \<and> (ptype pc = Bishop \<or> ptype pc = Rook \<or> ptype pc = Queen)
          \<and> \<bar>dr\<bar> \<le> 1 \<and> \<bar>dc\<bar> \<le> 1 \<and> 0 < k \<and> k < n
          \<and> r = (fst from + k * dr, snd from + k * dc)"
  with assms(2)
  show "\<not> isValidMove_spec (board gs) from (fst from + n * dr, snd from + n * dc)
               (removedSquares gs) gs"
    by (intro slider_blocked [where k = k and pc = pc]) auto
next
  fix "from" :: position and to :: position and pc
  assume "pieceAt (board gs) from = Some pc \<and> ptype pc = King
          \<and> \<bar>snd to - snd from\<bar> = 2 \<and> fst r = fst from
          \<and> ((snd from < snd to \<and> snd from < snd r \<and> snd r < 7)
              \<or> (snd to < snd from \<and> 0 < snd r \<and> snd r < snd from))"
  with assms(2)
  show "\<not> isValidMove_spec (board gs) from to (removedSquares gs) gs"
    by (intro castle_blocked [where r = r and pc = pc]) auto
qed

lemma selectionFromOwn_keep:
  "selectionFromOwn L u \<Longrightarrow> selectedSquare (gameState u') = selectedSquare (gameState u)
   \<Longrightarrow> board (gameState u') = board (gameState u) \<Longrightarrow> selectionFromOwn L u'"
  unfolding selectionFromOwn_def by simp

lemma selectionFromOwn_index_keep:
  "selectionFromOwn_index L u \<Longrightarrow> selectedSquare (gameState u') = selectedSquare (gameState u)
   \<Longrightarrow> board (gameState u') = board (gameState u) \<Longrightarrow> selectionFromOwn_index L u'"
  unfolding selectionFromOwn_index_def by simp

lemma reachable_selectionFromOwn: "reachable L u \<Longrightarrow> selectionFromOwn L u"
proof (induction rule: reachable.induct)
  case r_reset
  show ?case
    by (simp add: selectionFromOwn_def resetGame_def initialGameState_def gameState.defs)
next
  case (r_press u row col u' al)
  from gameStep_selection [OF press_gameStep [OF r_press.hyps(2)]]
  consider "selectedSquare (gameState u') = None"
    | "selectedSquare (gameState u') = selectedSquare (gameState u)"
      "board (gameState u') = board (gameState u)"
    | pc where "selectedSquare (gameState u') = Some (row, col)"
      "board (gameState u') = board (gameState u)"
      "boardAt (board (gameState u)) row col = Inr (Some pc)"
      "color pc = currentPlayer (gameState u)"
    by auto
  then show ?case
  proof cases
    case 1
    then show ?thesis by (simp add: selectionFromOwn_def)
  next
    case 2
    with r_press.IH show ?thesis by (rule selectionFromOwn_keep)
  next
    case 3
    show ?thesis
      unfolding selectionFromOwn_def
    proof (intro allI impI)
      fix p assume "selectedSquare (gameState u') = Some p"
      with 3(1) have p: "p = (row, col)" by simp
      show "\<exists>u0 u1 al pc. reachable L u0
           \<and> handleSquarePress L u0 (fst p) (snd p) = Inr (u1, al)
           \<and> selectedSquare (gameState u1) = Some p
           \<and> board (gameState u0) = board (gameState u')
           \<and> boardAt (board (gameState u0)) (fst p) (snd p) = Inr (Some pc)
           \<and> color pc = currentPlayer (gameState u0)"
        using r_press.hyps 3 p by (intro exI [of _ u] exI [of _ u'] exI [of _ al] exI [of _ pc]) simp
    qed
  qed
next
  case (r_mode u m)
  from r_mode.IH show ?case by (rule selectionFromOwn_keep) simp_all
next
  case (r_tick u)
  from r_tick.IH show ?case by (rule selectionFromOwn_keep) (simp_all add: timerTick_keeps)
next
  case (r_settings u minutes quota)
  from r_settings.IH show ?case by (rule selectionFromOwn_keep) (simp_all add: handleSettingsChange_def)
next
  case (r_start u)
  from r_start.IH show ?case by (rule selectionFromOwn_keep) (simp_all add: startGame_def Let_def)
qed

lemma reachable_index_selectionFromOwn: "reachable_index L u \<Longrightarrow> selectionFromOwn_index L u"
proof (induction rule: reachable_index.induct)
  case ri_reset
  show ?case
    by (simp add: selectionFromOwn_index_def resetGame_index_def initialGameState_def)
next
  case (ri_press u row col u' al)
  from gameStep_selection [OF press_index_gameStep [OF ri_press.hyps(2)]]
  consider "selectedSquare (gameState u') = None"
    | "selectedSquare (gameState u') = selectedSquare (gameState u)"
      "board (gameState u') = board (gameState u)"
    | pc where "selectedSquare (gameState u') = Some (row, col)"
      "board (gameState u') = board (gameState u)"
      "boardAt (board (gameState u)) row col = Inr (Some pc)"
      "color pc = currentPlayer (gameState u)"
    by auto
  then show ?case
  proof cases
    case 1
    then show ?thesis by (simp add: selectionFromOwn_index_def)
  next
    case 2
    with ri_press.IH show ?thesis by (rule selectionFromOwn_index_keep)
  next
    case 3
    show ?thesis
      unfolding selectionFromOwn_index_def
    proof (intro allI impI)
      fix p assume "selectedSquare (gameState u') = Some p"
      with 3(1) have p: "p = (row, col)" by simp
      show "\<exists>u0 u1 al pc. reachable_index L u0
           \<and> handleSquarePress_index L u0 (fst p) (snd p) = Inr (u1, al)
           \<and> selectedSquare (gameState u1) = Some p
           \<and> board (gameState u0) = board (gameState u')
           \<and> boardAt (board (gameState u0)) (fst p) (snd p) = Inr (Some pc)
           \<and> color pc = currentPlayer (gameState u0)"
        using ri_press.hyps 3 p by (intro exI [of _ u] exI [of _ u'] exI [of _ al] exI [of _ pc]) simp
    qed
  qed
next
  case (ri_mode u m)
  from ri_mode.IH show ?case by (rule selectionFromOwn_index_keep) simp_all
qed

subsection \<open>An accepted removal keeps the selection\<close>

text \<open>
  For every engine: an accepted removal passes the turn and leaves the selection and the
  board as they were (part_000 lines 123-128, index.tsx lines 69-73), whereas an applied
  move clears the selection (part_000 line 176, index.tsx line 119).
\<close>

lemma removal_keeps_selection:
  assumes "\<not> gameOver (gameState u)" "actionMode u = Remove"
    "legalRemoval (gameConfig u) (gameState u) row col"
  shows "\<exists>u'. handleSquarePress L u row col = Inr (u', [])
     \<and> selectedSquare (gameState u') = selectedSquare (gameState u)
     \<and> board (gameState u') = board (gameState u)
     \<and> currentPlayer (gameState u') = opponent (currentPlayer (gameState u))"
  using assms
  by (simp add: handleSquarePress_def removePress_def legalRemoval_def legalRemoval_index_def
        quotaExhausted_def Let_def)

lemma removal_keeps_selection_index:
  assumes "\<not> gameOver (gameState u)" "actionMode u = Remove"
    "legalRemoval_index (gameState u) row col"
  shows "\<exists>u'. handleSquarePress_index L u row col = Inr (u', [])
     \<and> selectedSquare (gameState u') = selectedSquare (gameState u)
     \<and> board (gameState u') = board (gameState u)
     \<and> currentPlayer (gameState u') = opponent (currentPlayer (gameState u))"
  using assms
  by (simp add: handleSquarePress_index_def removePress_index_def legalRemoval_index_def Let_def)

section \<open>The games, evaluated\<close>

lemma pinned_eval:
  "let u = pinned in
   \<not> gameOver (gameState u) \<and> actionMode u = Move
   \<and> selectedSquare (gameState u) = Some (1, 5)
   \<and> currentPlayer (gameState u) = Black
   \<and> isValidMove specLogic (board (gameState u)) (1, 5) (2, 5)
        (removedSquares (gameState u)) (gameState u)
   \<and> isInCheck specLogic
        (fst (makeMove specLogic (board (gameState u)) (1, 5) (2, 5) (gameState u)))
        Black (removedSquares (gameState u))"
  by code_simp

lemma pinned_index_eval:
  "let u = pinned_index in
   \<not> gameOver (gameState u) \<and> actionMode u = Move
   \<and> selectedSquare (gameState u) = Some (1, 5)
   \<and> currentPlayer (gameState u) = Black
   \<and> isValidMove specLogic_index (board (gameState u)) (1, 5) (2, 5)
        (removedSquares (gameState u)) (gameState u)
   \<and> isInCheck specLogic_index
        (fst (makeMove specLogic_index (board (gameState u)) (1, 5) (2, 5) (gameState u)))
        Black (removedSquares (gameState u))"
  by code_simp

lemma beforeMate_eval:
  "let u = beforeMate; r = handleSquarePress specLogic u 4 7 in
   \<not> gameOver (gameState u) \<and> actionMode u = Move
   \<and> selectedSquare (gameState u) = Some (0, 3)
   \<and> currentPlayer (gameState u) = Black
   \<and> winner (gameState u) = None
   \<and> (case r of Inl e \<Rightarrow> False
       | Inr r' \<Rightarrow> currentPlayer (gameState (fst r')) = White
           \<and> gameOver (gameState (fst r'))
           \<and> winner (gameState (fst r')) = Some Black
           \<and> snd r' = [Checkmate Black])"
  by code_simp

lemma beforeMate_index_eval:
  "let u = beforeMate_index; r = handleSquarePress_index specLogic_index u 4 7 in
   \<not> gameOver (gameState u) \<and> actionMode u = Move
   \<and> selectedSquare (gameState u) = Some (0, 3)
   \<and> currentPlayer (gameState u) = Black
   \<and> winner (gameState u) = None
   \<and> (case r of Inl e \<Rightarrow> False
       | Inr r' \<Rightarrow> currentPlayer (gameState (fst r')) = White
           \<and> gameOver (gameState (fst r'))
           \<and> winner (gameState (fst r')) = Some Black
           \<and> snd r' = [Checkmate Black])"
  by code_simp

lemma mated_eq: "handleSquarePress specLogic beforeMate 4 7 = Inr (mated, [Checkmate Black])"
proof (cases "handleSquarePress specLogic beforeMate 4 7")
  case (Inl e)
  with beforeMate_eval show ?thesis by (simp add: Let_def)
next
  case (Inr r)
  with beforeMate_eval have "snd r = [Checkmate Black]" by (simp add: Let_def)
  moreover from Inr have "mated = fst r" by (simp add: mated_def)
  ultimately show ?thesis using Inr by (cases r) simp
qed

lemma mated_index_eq:
  "handleSquarePress_index specLogic_index beforeMate_index 4 7 = Inr (mated_index, [Checkmate Black])"
proof (cases "handleSquarePress_index specLogic_index beforeMate_index 4 7")
  case (Inl e)
  with beforeMate_index_eval show ?thesis by (simp add: Let_def)
next
  case (Inr r)
  with beforeMate_index_eval have "snd r = [Checkmate Black]" by (simp add: Let_def)
  moreover from Inr have "mated_index = fst r" by (simp add: mated_index_def)
  ultimately show ?thesis using Inr by (cases r) simp
qed

lemma mated_facts:
  "gameOver (gameState mated)" "winner (gameState mated) = Some Black"
  "currentPlayer (gameState mated) = White"
  using beforeMate_eval mated_eq by (simp_all add: Let_def)

lemma mated_index_facts:
  "gameOver (gameState mated_index)" "winner (gameState mated_index) = Some Black"
  "currentPlayer (gameState mated_index) = White"
  using beforeMate_index_eval mated_index_eq by (simp_all add: Let_def)

lemma resetGame_reachable_spec: "reachable specLogic (resetGame specLogic)"
  by (rule reachable.r_reset)

lemma beforeMate_reachable: "reachable specLogic beforeMate"
  unfolding beforeMate_def by (rule presses_reachable) (rule reachable.r_reset)

lemma beforeMate_index_reachable: "reachable_index specLogic_index beforeMate_index"
  unfolding beforeMate_index_def by (rule presses_index_reachable) (rule reachable_index.ri_reset)

lemma lastSecond_facts:
  "\<not> gameOver (gameState lastSecond)" "currentPlayer (gameState lastSecond) = White"
  "atPlayer (timeLeft (gameState lastSecond)) White = 1"
  by (simp_all add: lastSecond_def handleTimeUpdate_def resetGame_def initialGameState_def
        gameState.defs timedGameState.defs)

lemma e2Selected_eval:
  "let u = e2Selected; r = handleSquarePress specLogic u 3 4 in
   \<not> gameOver (gameState u) \<and> actionMode u = Move
   \<and> selectedSquare (gameState u) = Some (6, 4)
   \<and> currentPlayer (gameState u) = White
   \<and> \<not> isValidMove specLogic (board (gameState u)) (6, 4) (3, 4)
          (removedSquares (gameState u)) (gameState u)
   \<and> (case r of Inl e \<Rightarrow> False
       | Inr r' \<Rightarrow> snd r' = [] \<and> selectedSquare (gameState (fst r')) = None)"
  by code_simp

lemma e2Selected_index_eval:
  "let u = e2Selected_index; r = handleSquarePress_index specLogic_index u 3 4 in
   \<not> gameOver (gameState u) \<and> actionMode u = Move
   \<and> selectedSquare (gameState u) = Some (6, 4)
   \<and> currentPlayer (gameState u) = White
   \<and> \<not> isValidMove specLogic_index (board (gameState u)) (6, 4) (3, 4)
          (removedSquares (gameState u)) (gameState u)
   \<and> (case r of Inl e \<Rightarrow> False
       | Inr r' \<Rightarrow> snd r' = [] \<and> selectedSquare (gameState (fst r')) = None)"
  by code_simp

lemma e2Dropped_eq: "handleSquarePress specLogic e2Selected 3 4 = Inr (e2Dropped, [])"
proof (cases "handleSquarePress specLogic e2Selected 3 4")
  case (Inl e)
  with e2Selected_eval show ?thesis by (simp add: Let_def)
next
  case (Inr r)
  with e2Selected_eval have "snd r = []" by (simp add: Let_def)
  with Inr show ?thesis unfolding e2Dropped_def by (rule press_as_presses)
qed

lemma e2Dropped_index_eq:
  "handleSquarePress_index specLogic_index e2Selected_index 3 4 = Inr (e2Dropped_index, [])"
proof (cases "handleSquarePress_index specLogic_index e2Selected_index 3 4")
  case (Inl e)
  with e2Selected_index_eval show ?thesis by (simp add: Let_def)
next
  case (Inr r)
  with e2Selected_index_eval have "snd r = []" by (simp add: Let_def)
  with Inr show ?thesis unfolding e2Dropped_index_def by (rule press_as_presses_index)
qed

lemma e2Selected_reachable: "reachable specLogic e2Selected"
  unfolding e2Selected_def by (rule presses_reachable) (rule reachable.r_reset)

lemma e2Selected_index_reachable: "reachable_index specLogic_index e2Selected_index"
  unfolding e2Selected_index_def by (rule presses_index_reachable) (rule reachable_index.ri_reset)

lemma removeMode_eval:
  "let u = removeMode; r = handleSquarePress specLogic u 4 4 in
   \<not> gameOver (gameState u) \<and> actionMode u = Remove
   \<and> currentPlayer (gameState u) = White
   \<and> removedSquares (gameState u) = {}
   \<and> (case r of Inl e \<Rightarrow> False | Inr r' \<Rightarrow> snd r' = [])"
  by code_simp

lemma removeMode_index_eval:
  "let u = removeMode_index; r = handleSquarePress_index specLogic_index u 4 4 in
   \<not> gameOver (gameState u) \<and> actionMode u = Remove
   \<and> currentPlayer (gameState u) = White
   \<and> removedSquares (gameState u) = {}
   \<and> (case r of Inl e \<Rightarrow> False | Inr r' \<Rightarrow> snd r' = [])"
  by code_simp

lemma removedE4_eq: "handleSquarePress specLogic removeMode 4 4 = Inr (removedE4, [])"
proof (cases "handleSquarePress specLogic removeMode 4 4")
  case (Inl e)
  with removeMode_eval show ?thesis by (simp add: Let_def)
next
  case (Inr r)
  with removeMode_eval have "snd r = []" by (simp add: Let_def)
  with Inr show ?thesis unfolding removedE4_def by (rule press_as_presses)
qed

lemma removedE4_index_eq:
  "handleSquarePress_index specLogic_index removeMode_index 4 4 = Inr (removedE4_index, [])"
proof (cases "handleSquarePress_index specLogic_index removeMode_index 4 4")
  case (Inl e)
  with removeMode_index_eval show ?thesis by (simp add: Let_def)
next
  case (Inr r)
  with removeMode_index_eval have "snd r = []" by (simp add: Let_def)
  with Inr show ?thesis unfolding removedE4_index_def by (rule press_as_presses_index)
qed

lemma quotaUsed_eval:
  "let u = quotaUsed in
   \<not> gameOver (gameState u) \<and> actionMode u = Remove
   \<and> currentPlayer (gameState u) = White
   \<and> atPlayer (removalsUsed (gameState u)) White = 3
   \<and> removalsPerPlayer (gameConfig u) = 3
   \<and> positionKey 4 4 \<notin> removedSquares (gameState u)
   \<and> boardAt (board (gameState u)) 4 4 = Inr None"
  by code_simp

lemma beforeMate_facts:
  "\<not> gameOver (gameState beforeMate)" "actionMode beforeMate = Move"
  "selectedSquare (gameState beforeMate) = Some (0, 3)"
  "currentPlayer (gameState beforeMate) = Black"
  "winner (gameState beforeMate) = None"
  using beforeMate_eval by (simp_all add: Let_def)

lemma beforeMate_index_facts:
  "\<not> gameOver (gameState beforeMate_index)" "actionMode beforeMate_index = Move"
  "selectedSquare (gameState beforeMate_index) = Some (0, 3)"
  "currentPlayer (gameState beforeMate_index) = Black"
  "winner (gameState beforeMate_index) = None"
  using beforeMate_index_eval by (simp_all add: Let_def)

lemma pinned_facts:
  "\<not> gameOver (gameState pinned)" "actionMode pinned = Move"
  "selectedSquare (gameState pinned) = Some (1, 5)"
  "currentPlayer (gameState pinned) = Black"
  "isValidMove specLogic (board (gameState pinned)) (1, 5) (2, 5)
     (removedSquares (gameState pinned)) (gameState pinned)"
  "isInCheck specLogic
     (fst (makeMove specLogic (board (gameState pinned)) (1, 5) (2, 5) (gameState pinned)))
     Black (removedSquares (gameState pinned))"
  using pinned_eval by (simp_all add: Let_def)

lemma pinned_index_facts:
  "\<not> gameOver (gameState pinned_index)" "actionMode pinned_index = Move"
  "selectedSquare (gameState pinned_index) = Some (1, 5)"
  "currentPlayer (gameState pinned_index) = Black"
  "isValidMove specLogic_index (board (gameState pinned_index)) (1, 5) (2, 5)
     (removedSquares (gameState pinned_index)) (gameState pinned_index)"
  "isInCheck specLogic_index
     (fst (makeMove specLogic_index (board (gameState pinned_index)) (1, 5) (2, 5)
        (gameState pinned_index)))
     Black (removedSquares (gameState pinned_index))"
  using pinned_index_eval by (simp_all add: Let_def)

lemma pinned_rejected: "handleSquarePress specLogic pinned 2 5 = Inr (pinned, [LeavesKingInCheck])"
  by (rule selfCheck_timed [where sel = "(1, 5)"]) (simp_all add: pinned_facts leavesKingInCheck_def)

lemma pinned_index_rejected:
  "handleSquarePress_index specLogic_index pinned_index 2 5 = Inr (pinned_index, [LeavesKingInCheck])"
  by (rule selfCheck_index [where sel = "(1, 5)"])
     (simp_all add: pinned_index_facts leavesKingInCheck_def)

lemma removeMode_facts:
  "\<not> gameOver (gameState removeMode)" "actionMode removeMode = Remove"
  "currentPlayer (gameState removeMode) = White" "removedSquares (gameState removeMode) = {}"
  using removeMode_eval by (simp_all add: Let_def)

lemma removeMode_index_facts:
  "\<not> gameOver (gameState removeMode_index)" "actionMode removeMode_index = Remove"
  "currentPlayer (gameState removeMode_index) = White"
  "removedSquares (gameState removeMode_index) = {}"
  using removeMode_index_eval by (simp_all add: Let_def)

lemma quotaUsed_facts:
  "\<not> gameOver (gameState quotaUsed)" "actionMode quotaUsed = Remove"
  "currentPlayer (gameState quotaUsed) = White"
  "atPlayer (removalsUsed (gameState quotaUsed)) White = 3"
  "removalsPerPlayer (gameConfig quotaUsed) = 3"
  "positionKey 4 4 \<notin> removedSquares (gameState quotaUsed)"
  "boardAt (board (gameState quotaUsed)) 4 4 = Inr None"
  using quotaUsed_eval by (simp_all add: Let_def)

lemma e2Selected_facts:
  "\<not> gameOver (gameState e2Selected)" "actionMode e2Selected = Move"
  "selectedSquare (gameState e2Selected) = Some (6, 4)"
  "currentPlayer (gameState e2Selected) = White"
  "\<not> isValidMove specLogic (board (gameState e2Selected)) (6, 4) (3, 4)
      (removedSquares (gameState e2Selected)) (gameState e2Selected)"
  "selectedSquare (gameState e2Dropped) = None"
  using e2Selected_eval e2Dropped_eq by (simp_all add: Let_def)

lemma e2Selected_index_facts:
  "\<not> gameOver (gameState e2Selected_index)" "actionMode e2Selected_index = Move"
  "selectedSquare (gameState e2Selected_index) = Some (6, 4)"
  "currentPlayer (gameState e2Selected_index) = White"
  "\<not> isValidMove specLogic_index (board (gameState e2Selected_index)) (6, 4) (3, 4)
      (removedSquares (gameState e2Selected_index)) (gameState e2Selected_index)"
  "selectedSquare (gameState e2Dropped_index) = None"
  using e2Selected_index_eval e2Dropped_index_eq by (simp_all add: Let_def)

lemma g1Removed_eval:
  "let gs = gameState g1Removed in
   (7, 6) \<in> removedSquares gs
   \<and> pieceAt (board gs) (7, 4) = Some \<lparr>ptype = King, color = White\<rparr>
   \<and> pieceAt (board gs) (7, 7) = Some \<lparr>ptype = Rook, color = White\<rparr>
   \<and> pieceAt (board gs) (7, 5) = None
   \<and> currentPlayer gs = Black
   \<and> whiteKingside (castlingRights gs)"
  by code_simp

lemma g1Removed_index_eval:
  "let gs = gameState g1Removed_index in
   (7, 6) \<in> removedSquares gs
   \<and> pieceAt (board gs) (7, 4) = Some \<lparr>ptype = King, color = White\<rparr>
   \<and> pieceAt (board gs) (7, 7) = Some \<lparr>ptype = Rook, color = White\<rparr>
   \<and> pieceAt (board gs) (7, 5) = None
   \<and> currentPlayer gs = Black
   \<and> whiteKingside (castlingRights gs)"
  by code_simp

lemma g1Removed_reachable: "reachable specLogic g1Removed"
  unfolding g1Removed_def
  by (intro presses_reachable reachable.r_mode reachable.r_reset)

lemma g1Removed_index_reachable: "reachable_index specLogic_index g1Removed_index"
  unfolding g1Removed_index_def
  by (intro presses_index_reachable reachable_index.ri_mode reachable_index.ri_reset)

lemma g1Removed_facts:
  "(7, 6) \<in> removedSquares (gameState g1Removed)"
  "pieceAt (board (gameState g1Removed)) (7, 4) = Some \<lparr>ptype = King, color = White\<rparr>"
  "pieceAt (board (gameState g1Removed)) (7, 7) = Some \<lparr>ptype = Rook, color = White\<rparr>"
  "pieceAt (board (gameState g1Removed)) (7, 5) = None"
  using g1Removed_eval by (simp_all add: Let_def)

lemma g1Removed_index_facts:
  "(7, 6) \<in> removedSquares (gameState g1Removed_index)"
  "pieceAt (board (gameState g1Removed_index)) (7, 4) = Some \<lparr>ptype = King, color = White\<rparr>"
  "pieceAt (board (gameState g1Removed_index)) (7, 7) = Some \<lparr>ptype = Rook, color = White\<rparr>"
  "pieceAt (board (gameState g1Removed_index)) (7, 5) = None"
  using g1Removed_index_eval by (simp_all add: Let_def)









subsection \<open>The selection at the moment it is set\<close>

text \<open>
  What does hold of the selection. In every reachable state the selected square, if there
  is one, holds a piece, and it was set by a press made in a reachable state with the same board in which that
  square held a piece whose color was the player to move. A press either clears the
  selection, or leaves it as it was together with the board, or sets it to the pressed
  square; it sets it only when that square holds, at that moment, a piece whose color is
  the player to move, and then the board and the player to move are unchanged by the press.
\<close>

lemma selection_at_setting:
  "(reachable L u \<longrightarrow>
      (\<forall>p. selectedSquare (gameState u) = Some p \<longrightarrow>
          occupied (board (gameState u)) (fst p) (snd p)
        \<and> (\<exists>u0 u1 al pc. reachable L u0
               \<and> handleSquarePress L u0 (fst p) (snd p) = Inr (u1, al)
               \<and> selectedSquare (gameState u1) = Some p
               \<and> board (gameState u0) = board (gameState u)
               \<and> boardAt (board (gameState u0)) (fst p) (snd p) = Inr (Some pc)
               \<and> color pc = currentPlayer (gameState u0)))
    \<and> (\<forall>row col u' al. handleSquarePress L u row col = Inr (u', al) \<longrightarrow>
          selectedSquare (gameState u') = None
        \<or> (selectedSquare (gameState u') = selectedSquare (gameState u)
            \<and> board (gameState u') = board (gameState u))
        \<or> (selectedSquare (gameState u') = Some (row, col)
            \<and> board (gameState u') = board (gameState u)
            \<and> currentPlayer (gameState u') = currentPlayer (gameState u)
            \<and> (\<exists>pc. boardAt (board (gameState u)) row col = Inr (Some pc)
                     \<and> color pc = currentPlayer (gameState u)))))
 \<and> (reachable_index M v \<longrightarrow>
      (\<forall>p. selectedSquare (gameState v) = Some p \<longrightarrow>
          occupied (board (gameState v)) (fst p) (snd p)
        \<and> (\<exists>v0 v1 al pc. reachable_index M v0
               \<and> handleSquarePress_index M v0 (fst p) (snd p) = Inr (v1, al)
               \<and> selectedSquare (gameState v1) = Some p
               \<and> board (gameState v0) = board (gameState v)
               \<and> boardAt (board (gameState v0)) (fst p) (snd p) = Inr (Some pc)
               \<and> color pc = currentPlayer (gameState v0)))
    \<and> (\<forall>row col v' al. handleSquarePress_index M v row col = Inr (v', al) \<longrightarrow>
          selectedSquare (gameState v') = None
        \<or> (selectedSquare (gameState v') = selectedSquare (gameState v)
            \<and> board (gameState v') = board (gameState v))
        \<or> (selectedSquare (gameState v') = Some (row, col)
            \<and> board (gameState v') = board (gameState v)
            \<and> currentPlayer (gameState v') = currentPlayer (gameState v)
            \<and> (\<exists>pc. boardAt (board (gameState v)) row col = Inr (Some pc)
                     \<and> color pc = currentPlayer (gameState v)))))"
proof (intro conjI impI allI)
  fix p assume "reachable L u" "selectedSquare (gameState u) = Some p"
  with reachable_selectionOccupied [of L u]
  show "occupied (board (gameState u)) (fst p) (snd p)"
    by (simp add: selectionOccupied_def)
next
  fix p assume "reachable L u" "selectedSquare (gameState u) = Some p"
  with reachable_selectionFromOwn [of L u]
  show "\<exists>u0 u1 al pc. reachable L u0
               \<and> handleSquarePress L u0 (fst p) (snd p) = Inr (u1, al)
               \<and> selectedSquare (gameState u1) = Some p
               \<and> board (gameState u0) = board (gameState u)
               \<and> boardAt (board (gameState u0)) (fst p) (snd p) = Inr (Some pc)
               \<and> color pc = currentPlayer (gameState u0)"
    by (simp add: selectionFromOwn_def)
next
  fix p assume "reachable_index M v" "selectedSquare (gameState v) = Some p"
  with reachable_index_selectionOccupied [of M v]
  show "occupied (board (gameState v)) (fst p) (snd p)"
    by (simp add: selectionOccupied_def)
next
  fix p assume "reachable_index M v" "selectedSquare (gameState v) = Some p"
  with reachable_index_selectionFromOwn [of M v]
  show "\<exists>v0 v1 al pc. reachable_index M v0
               \<and> handleSquarePress_index M v0 (fst p) (snd p) = Inr (v1, al)
               \<and> selectedSquare (gameState v1) = Some p
               \<and> board (gameState v0) = board (gameState v)
               \<and> boardAt (board (gameState v0)) (fst p) (snd p) = Inr (Some pc)
               \<and> color pc = currentPlayer (gameState v0)"
    by (simp add: selectionFromOwn_index_def)
next
  fix row col u' al
  assume "handleSquarePress L u row col = Inr (u', al)"
  from gameStep_selection [OF press_gameStep [OF this]]
  show "selectedSquare (gameState u') = None
        \<or> (selectedSquare (gameState u') = selectedSquare (gameState u)
            \<and> board (gameState u') = board (gameState u))
        \<or> (selectedSquare (gameState u') = Some (row, col)
            \<and> board (gameState u') = board (gameState u)
            \<and> currentPlayer (gameState u') = currentPlayer (gameState u)
            \<and> (\<exists>pc. boardAt (board (gameState u)) row col = Inr (Some pc)
                     \<and> color pc = currentPlayer (gameState u)))"
    by simp
next
  fix row col v' al
  assume "handleSquarePress_index M v row col = Inr (v', al)"
  from gameStep_selection [OF press_index_gameStep [OF this]]
  show "selectedSquare (gameState v') = None
        \<or> (selectedSquare (gameState v') = selectedSquare (gameState v)
            \<and> board (gameState v') = board (gameState v))
        \<or> (selectedSquare (gameState v') = Some (row, col)
            \<and> board (gameState v') = board (gameState v)
            \<and> currentPlayer (gameState v') = currentPlayer (gameState v)
            \<and> (\<exists>pc. boardAt (board (gameState v)) row col = Inr (Some pc)
                     \<and> color pc = currentPlayer (gameState v)))"
    by simp
qed

text \<open>
  After White has selected the pawn on e2 the selected square is occupied; it was set by
  a press on e2 in a position with the same board, where e2 held a piece of the player to
  move; and a press on e5 clears the selection.
\<close>

lemma selection_at_setting_e2:
  "reachable specLogic e2Selected
   \<and> selectedSquare (gameState e2Selected) = Some (6, 4)
   \<and> occupied (board (gameState e2Selected)) 6 4
   \<and> (\<exists>u0 u1 al pc. reachable specLogic u0
         \<and> handleSquarePress specLogic u0 6 4 = Inr (u1, al)
         \<and> selectedSquare (gameState u1) = Some (6, 4)
         \<and> board (gameState u0) = board (gameState e2Selected)
         \<and> boardAt (board (gameState u0)) 6 4 = Inr (Some pc)
         \<and> color pc = currentPlayer (gameState u0))
   \<and> handleSquarePress specLogic e2Selected 3 4 = Inr (e2Dropped, [])
   \<and> selectedSquare (gameState e2Dropped) = None
   \<and> reachable_index specLogic_index e2Selected_index
   \<and> selectedSquare (gameState e2Selected_index) = Some (6, 4)
   \<and> occupied (board (gameState e2Selected_index)) 6 4
   \<and> handleSquarePress_index specLogic_index e2Selected_index 3 4 = Inr (e2Dropped_index, [])
   \<and> selectedSquare (gameState e2Dropped_index) = None"
proof -
  note T = selection_at_setting [of specLogic e2Selected specLogic_index e2Selected_index]
  note T1 = T [THEN conjunct1, THEN mp, OF e2Selected_reachable, THEN conjunct1,
    THEN spec [where x = "(6, 4)"], THEN mp, OF e2Selected_facts(3)]
  note T2 = T [THEN conjunct2, THEN mp, OF e2Selected_index_reachable, THEN conjunct1,
    THEN spec [where x = "(6, 4)"], THEN mp, OF e2Selected_index_facts(3)]
  from T1 T2 show ?thesis
    using e2Selected_reachable e2Selected_index_reachable e2Selected_facts
      e2Selected_index_facts e2Dropped_eq e2Dropped_index_eq
    by simp
qed

section \<open>The claims\<close>

text \<open>
  Claim C1. In move mode the turn passes exactly when a move is applied. Whenever it
  passes, a piece was selected, the move from it to the pressed square was accepted by
  \<^verbatim>\<open>isValidMove\<close>, the board written is the board \<^verbatim>\<open>makeMove\<close> computed, and
  \<^verbatim>\<open>isInCheck\<close> is false on that board for the mover's color. And whenever the simulated
  board has the mover's king in check, the press returns the state it was given, with the
  alert that the move would leave the king in check. Both controllers, any engine.
\<close>

theorem self_check_filtered:
  "(handleSquarePress L u row col = Inr (u', al) \<and> actionMode u = Move \<longrightarrow>
      (currentPlayer (gameState u') \<noteq> currentPlayer (gameState u) \<longrightarrow>
         (\<exists>sel. selectedSquare (gameState u) = Some sel
            \<and> isValidMove L (board (gameState u)) sel (row, col) (removedSquares (gameState u)) (gameState u)
            \<and> board (gameState u') = fst (makeMove L (board (gameState u)) sel (row, col) (gameState u))
            \<and> \<not> isInCheck L (board (gameState u')) (currentPlayer (gameState u))
                   (removedSquares (gameState u))))
    \<and> (\<forall>sel. \<not> gameOver (gameState u) \<and> selectedSquare (gameState u) = Some sel \<and> sel \<noteq> (row, col)
            \<and> isValidMove L (board (gameState u)) sel (row, col) (removedSquares (gameState u)) (gameState u)
            \<and> isInCheck L (fst (makeMove L (board (gameState u)) sel (row, col) (gameState u)))
                 (currentPlayer (gameState u)) (removedSquares (gameState u))
          \<longrightarrow> u' = u \<and> al = [LeavesKingInCheck]))
 \<and> (handleSquarePress_index M v row col = Inr (v', al') \<and> actionMode v = Move \<longrightarrow>
      (currentPlayer (gameState v') \<noteq> currentPlayer (gameState v) \<longrightarrow>
         (\<exists>sel. selectedSquare (gameState v) = Some sel
            \<and> isValidMove M (board (gameState v)) sel (row, col) (removedSquares (gameState v)) (gameState v)
            \<and> board (gameState v') = fst (makeMove M (board (gameState v)) sel (row, col) (gameState v))
            \<and> \<not> isInCheck M (board (gameState v')) (currentPlayer (gameState v))
                   (removedSquares (gameState v))))
    \<and> (\<forall>sel. \<not> gameOver (gameState v) \<and> selectedSquare (gameState v) = Some sel \<and> sel \<noteq> (row, col)
            \<and> isValidMove M (board (gameState v)) sel (row, col) (removedSquares (gameState v)) (gameState v)
            \<and> isInCheck M (fst (makeMove M (board (gameState v)) sel (row, col) (gameState v)))
                 (currentPlayer (gameState v)) (removedSquares (gameState v))
          \<longrightarrow> v' = v \<and> al' = [LeavesKingInCheck]))"
proof -
  have timed: "\<exists>sel. selectedSquare (gameState u) = Some sel
            \<and> isValidMove L (board (gameState u)) sel (row, col) (removedSquares (gameState u)) (gameState u)
            \<and> board (gameState u') = fst (makeMove L (board (gameState u)) sel (row, col) (gameState u))
            \<and> \<not> isInCheck L (board (gameState u')) (currentPlayer (gameState u))
                   (removedSquares (gameState u))"
    if press: "handleSquarePress L u row col = Inr (u', al)" and m: "actionMode u = Move"
      and turn: "currentPlayer (gameState u') \<noteq> currentPlayer (gameState u)"
  proof -
    from press turn have live: "\<not> gameOver (gameState u)"
      by (auto simp: handleSquarePress_def)
    from movePress_cases [OF press live m] turn
    have legal: "legalMovePress L (gameState u) (row, col)"
      by (auto split: if_splits)
    with movePress_cases [OF press live m] obtain sel where
      sel: "selectedSquare (gameState u) = Some sel"
      and u': "gameState u' = appliedMove L (gameState u) sel (row, col)"
      by auto
    from legal sel show ?thesis
      by (auto simp: legalMovePress_def leavesKingInCheck_def u' appliedMove_fields)
  qed
  have index: "\<exists>sel. selectedSquare (gameState v) = Some sel
            \<and> isValidMove M (board (gameState v)) sel (row, col) (removedSquares (gameState v)) (gameState v)
            \<and> board (gameState v') = fst (makeMove M (board (gameState v)) sel (row, col) (gameState v))
            \<and> \<not> isInCheck M (board (gameState v')) (currentPlayer (gameState v))
                   (removedSquares (gameState v))"
    if press: "handleSquarePress_index M v row col = Inr (v', al')" and m: "actionMode v = Move"
      and turn: "currentPlayer (gameState v') \<noteq> currentPlayer (gameState v)"
  proof -
    from press turn have live: "\<not> gameOver (gameState v)"
      by (auto simp: handleSquarePress_index_def)
    from movePress_index_cases [OF press live m] turn
    have legal: "legalMovePress M (gameState v) (row, col)"
      by (auto split: if_splits)
    with movePress_index_cases [OF press live m] obtain sel where
      sel: "selectedSquare (gameState v) = Some sel"
      and v': "gameState v' = appliedMove M (gameState v) sel (row, col)"
      by auto
    from legal sel show ?thesis
      by (auto simp: legalMovePress_def leavesKingInCheck_def v' appliedMove_fields)
  qed
  show ?thesis
    using timed index selfCheck_timed [of u _ row col L] selfCheck_index [of v _ row col M]
    by (auto simp: leavesKingInCheck_def)
qed

text \<open>
  Black's queen goes to h4 and the board written has no check on Black; the pinned pawn on
  f7 may not step to f6, and the press changes nothing.
\<close>

theorem self_check_filtered_witness:
  "handleSquarePress specLogic beforeMate 4 7 = Inr (mated, [Checkmate Black])
   \<and> actionMode beforeMate = Move
   \<and> currentPlayer (gameState mated) \<noteq> currentPlayer (gameState beforeMate)
   \<and> board (gameState mated)
        = fst (makeMove specLogic (board (gameState beforeMate)) (0, 3) (4, 7) (gameState beforeMate))
   \<and> \<not> isInCheck specLogic (board (gameState mated)) Black (removedSquares (gameState beforeMate))
   \<and> handleSquarePress_index specLogic_index beforeMate_index 4 7
        = Inr (mated_index, [Checkmate Black])
   \<and> actionMode beforeMate_index = Move
   \<and> currentPlayer (gameState mated_index) \<noteq> currentPlayer (gameState beforeMate_index)
   \<and> \<not> isInCheck specLogic_index (board (gameState mated_index)) Black
          (removedSquares (gameState beforeMate_index))
   \<and> isInCheck specLogic
        (fst (makeMove specLogic (board (gameState pinned)) (1, 5) (2, 5) (gameState pinned)))
        (currentPlayer (gameState pinned)) (removedSquares (gameState pinned))
   \<and> handleSquarePress specLogic pinned 2 5 = Inr (pinned, [LeavesKingInCheck])"
  using self_check_filtered [of specLogic beforeMate 4 7 mated "[Checkmate Black]"
      specLogic_index beforeMate_index mated_index "[Checkmate Black]"]
    mated_eq mated_index_eq mated_facts mated_index_facts beforeMate_facts beforeMate_index_facts
    pinned_facts pinned_rejected
  by auto

text \<open>
  Claim C2. Over the rule engine of the specification, in every reachable state of either
  controller and for every removed square r: r holds no piece; \<^verbatim>\<open>isValidMove\<close> is false
  for every move whose destination is r; \<^verbatim>\<open>isValidMove\<close> is false for every move of a
  bishop, rook or queen to a square beyond r in a direction that passes through r; and it
  is false for every two-column move of a king (castling) when r lies on the king's rank
  strictly between the king and the rook of that side.
\<close>

theorem removed_squares_are_dead:
  "(reachable specLogic u \<and> r \<in> removedSquares (gameState u) \<longrightarrow>
      boardAt (board (gameState u)) (fst r) (snd r) = Inr None
    \<and> (\<forall>from. \<not> isValidMove specLogic (board (gameState u)) from r
                   (removedSquares (gameState u)) (gameState u))
    \<and> (\<forall>from pc dr dc k n.
          pieceAt (board (gameState u)) from = Some pc
          \<and> (ptype pc = Bishop \<or> ptype pc = Rook \<or> ptype pc = Queen)
          \<and> \<bar>dr\<bar> \<le> 1 \<and> \<bar>dc\<bar> \<le> 1 \<and> 0 < k \<and> k < n
          \<and> r = (fst from + k * dr, snd from + k * dc) \<longrightarrow>
          \<not> isValidMove specLogic (board (gameState u)) from (fst from + n * dr, snd from + n * dc)
               (removedSquares (gameState u)) (gameState u))
    \<and> (\<forall>from to pc.
          pieceAt (board (gameState u)) from = Some pc \<and> ptype pc = King
          \<and> \<bar>snd to - snd from\<bar> = 2 \<and> fst r = fst from
          \<and> ((snd from < snd to \<and> snd from < snd r \<and> snd r < 7)
              \<or> (snd to < snd from \<and> 0 < snd r \<and> snd r < snd from)) \<longrightarrow>
          \<not> isValidMove specLogic (board (gameState u)) from to
               (removedSquares (gameState u)) (gameState u)))
 \<and> (reachable_index specLogic_index v \<and> r \<in> removedSquares (gameState v) \<longrightarrow>
      boardAt (board (gameState v)) (fst r) (snd r) = Inr None
    \<and> (\<forall>from. \<not> isValidMove specLogic_index (board (gameState v)) from r
                   (removedSquares (gameState v)) (gameState v))
    \<and> (\<forall>from pc dr dc k n.
          pieceAt (board (gameState v)) from = Some pc
          \<and> (ptype pc = Bishop \<or> ptype pc = Rook \<or> ptype pc = Queen)
          \<and> \<bar>dr\<bar> \<le> 1 \<and> \<bar>dc\<bar> \<le> 1 \<and> 0 < k \<and> k < n
          \<and> r = (fst from + k * dr, snd from + k * dc) \<longrightarrow>
          \<not> isValidMove specLogic_index (board (gameState v)) from
               (fst from + n * dr, snd from + n * dc)
               (removedSquares (gameState v)) (gameState v))
    \<and> (\<forall>from to pc.
          pieceAt (board (gameState v)) from = Some pc \<and> ptype pc = King
          \<and> \<bar>snd to - snd from\<bar> = 2 \<and> fst r = fst from
          \<and> ((snd from < snd to \<and> snd from < snd r \<and> snd r < 7)
              \<or> (snd to < snd from \<and> 0 < snd r \<and> snd r < snd from)) \<longrightarrow>
          \<not> isValidMove specLogic_index (board (gameState v)) from to
               (removedSquares (gameState v)) (gameState v)))"
  unfolding spec_isValidMove
  using removedEmpty_dead [OF reachable_removedEmpty, of u r]
    removedEmpty_dead [OF reachable_index_removedEmpty, of v r]
  by blast

text \<open>
  White has developed the king's knight and bishop and then removed the empty square g1.
  No piece stands on g1; the rook on h1 may neither go there nor pass through it to the
  empty square f1, and the king on e1 cannot castle on the king's side.
\<close>

theorem removed_squares_are_dead_witness:
  "reachable specLogic g1Removed \<and> (7, 6) \<in> removedSquares (gameState g1Removed)
   \<and> boardAt (board (gameState g1Removed)) 7 6 = Inr None
   \<and> pieceAt (board (gameState g1Removed)) (7, 7) = Some \<lparr>ptype = Rook, color = White\<rparr>
   \<and> pieceAt (board (gameState g1Removed)) (7, 5) = None
   \<and> \<not> isValidMove specLogic (board (gameState g1Removed)) (7, 7) (7, 6)
          (removedSquares (gameState g1Removed)) (gameState g1Removed)
   \<and> \<not> isValidMove specLogic (board (gameState g1Removed)) (7, 7) (7, 5)
          (removedSquares (gameState g1Removed)) (gameState g1Removed)
   \<and> pieceAt (board (gameState g1Removed)) (7, 4) = Some \<lparr>ptype = King, color = White\<rparr>
   \<and> \<not> isValidMove specLogic (board (gameState g1Removed)) (7, 4) (7, 6)
          (removedSquares (gameState g1Removed)) (gameState g1Removed)
   \<and> reachable_index specLogic_index g1Removed_index
   \<and> (7, 6) \<in> removedSquares (gameState g1Removed_index)
   \<and> boardAt (board (gameState g1Removed_index)) 7 6 = Inr None
   \<and> \<not> isValidMove specLogic_index (board (gameState g1Removed_index)) (7, 7) (7, 6)
          (removedSquares (gameState g1Removed_index)) (gameState g1Removed_index)
   \<and> \<not> isValidMove specLogic_index (board (gameState g1Removed_index)) (7, 7) (7, 5)
          (removedSquares (gameState g1Removed_index)) (gameState g1Removed_index)
   \<and> \<not> isValidMove specLogic_index (board (gameState g1Removed_index)) (7, 4) (7, 6)
          (removedSquares (gameState g1Removed_index)) (gameState g1Removed_index)"
proof -
  note T = removed_squares_are_dead [of g1Removed "(7, 6)" g1Removed_index]
  have hyp: "reachable specLogic g1Removed \<and> (7, 6) \<in> removedSquares (gameState g1Removed)"
    using g1Removed_reachable g1Removed_facts(1) by simp
  have hyp': "reachable_index specLogic_index g1Removed_index
      \<and> (7, 6) \<in> removedSquares (gameState g1Removed_index)"
    using g1Removed_index_reachable g1Removed_index_facts(1) by simp
  note T1 = T [THEN conjunct1, THEN mp, OF hyp]
  note T2 = T [THEN conjunct2, THEN mp, OF hyp']
  note rookRay = spec [where x = "(7, 7)", THEN spec [where x = "\<lparr>ptype = Rook, color = White\<rparr>"],
    THEN spec [where x = 0], THEN spec [where x = "- 1"], THEN spec [where x = 1],
    THEN spec [where x = 2]]
  note kingPath = spec [where x = "(7, 4)", THEN spec [where x = "(7, 6)"],
    THEN spec [where x = "\<lparr>ptype = King, color = White\<rparr>"]]
  have a: "boardAt (board (gameState g1Removed)) 7 6 = Inr None"
    using T1 [THEN conjunct1] by simp
  have b: "\<not> isValidMove specLogic (board (gameState g1Removed)) (7, 7) (7, 6)
          (removedSquares (gameState g1Removed)) (gameState g1Removed)"
    using T1 [THEN conjunct2, THEN conjunct1, THEN spec [where x = "(7, 7)"]] .
  have d: "\<not> isValidMove specLogic (board (gameState g1Removed)) (7, 4) (7, 6)
          (removedSquares (gameState g1Removed)) (gameState g1Removed)"
    using T1 [THEN conjunct2, THEN conjunct2, THEN conjunct2, THEN kingPath] g1Removed_facts(2)
    by simp
  have c: "\<not> isValidMove specLogic (board (gameState g1Removed)) (7, 7) (7, 5)
          (removedSquares (gameState g1Removed)) (gameState g1Removed)"
    using T1 [THEN conjunct2, THEN conjunct2, THEN conjunct1, THEN rookRay] g1Removed_facts(3)
    by simp
  have a': "boardAt (board (gameState g1Removed_index)) 7 6 = Inr None"
    using T2 [THEN conjunct1] by simp
  have b': "\<not> isValidMove specLogic_index (board (gameState g1Removed_index)) (7, 7) (7, 6)
          (removedSquares (gameState g1Removed_index)) (gameState g1Removed_index)"
    using T2 [THEN conjunct2, THEN conjunct1, THEN spec [where x = "(7, 7)"]] .
  have d': "\<not> isValidMove specLogic_index (board (gameState g1Removed_index)) (7, 4) (7, 6)
          (removedSquares (gameState g1Removed_index)) (gameState g1Removed_index)"
    using T2 [THEN conjunct2, THEN conjunct2, THEN conjunct2, THEN kingPath]
      g1Removed_index_facts(2)
    by simp
  have c': "\<not> isValidMove specLogic_index (board (gameState g1Removed_index)) (7, 7) (7, 5)
          (removedSquares (gameState g1Removed_index)) (gameState g1Removed_index)"
    using T2 [THEN conjunct2, THEN conjunct2, THEN conjunct1, THEN rookRay]
      g1Removed_index_facts(3)
    by simp
  show ?thesis
    using a b c d a' b' c' d' hyp hyp' g1Removed_facts by simp
qed

text \<open>
  Claim C3. From a reachable state, when a press in move mode applies a move (the turn
  passes), the new player to move is the opponent of the mover; if \<^verbatim>\<open>isCheckmate\<close>
  holds for that player on the new board, the game is over and the winner is the mover;
  otherwise \<^verbatim>\<open>gameOver\<close> and \<^verbatim>\<open>winner\<close> are what they were before the move.
\<close>

theorem checkmate_ends_game:
  "(reachable L u \<and> handleSquarePress L u row col = Inr (u', al) \<and> actionMode u = Move
      \<and> currentPlayer (gameState u') \<noteq> currentPlayer (gameState u) \<longrightarrow>
      currentPlayer (gameState u') = opponent (currentPlayer (gameState u))
    \<and> (\<exists>sel. selectedSquare (gameState u) = Some sel
          \<and> (if isCheckmate L (board (gameState u')) (currentPlayer (gameState u'))
                   (removedSquares (gameState u))
                   (updateCastlingRights L (gameState u) sel (row, col))
              then gameOver (gameState u') \<and> winner (gameState u') = Some (currentPlayer (gameState u))
              else gameOver (gameState u') = gameOver (gameState u)
                   \<and> winner (gameState u') = winner (gameState u))))
 \<and> (reachable_index M v \<and> handleSquarePress_index M v row col = Inr (v', al') \<and> actionMode v = Move
      \<and> currentPlayer (gameState v') \<noteq> currentPlayer (gameState v) \<longrightarrow>
      currentPlayer (gameState v') = opponent (currentPlayer (gameState v))
    \<and> (\<exists>sel. selectedSquare (gameState v) = Some sel
          \<and> (if isCheckmate M (board (gameState v')) (currentPlayer (gameState v'))
                   (removedSquares (gameState v))
                   (updateCastlingRights M (gameState v) sel (row, col))
              then gameOver (gameState v') \<and> winner (gameState v') = Some (currentPlayer (gameState v))
              else gameOver (gameState v') = gameOver (gameState v)
                   \<and> winner (gameState v') = winner (gameState v))))"
proof (intro conjI impI; elim conjE)
  assume r: "reachable L u" and press: "handleSquarePress L u row col = Inr (u', al)"
    and m: "actionMode u = Move"
    and turn: "currentPlayer (gameState u') \<noteq> currentPlayer (gameState u)"
  from press turn have live: "\<not> gameOver (gameState u)"
    by (auto simp: handleSquarePress_def)
  with reachable_noWinnerYet [OF r] have none: "winner (gameState u) = None"
    by (simp add: noWinnerYet_def)
  from movePress_cases [OF press live m] turn obtain sel where
    sel: "selectedSquare (gameState u) = Some sel"
    and u': "gameState u' = appliedMove L (gameState u) sel (row, col)"
    by (auto split: if_splits)
  show "currentPlayer (gameState u') = opponent (currentPlayer (gameState u))"
    by (simp add: u' appliedMove_fields)
  show "\<exists>sel. selectedSquare (gameState u) = Some sel
          \<and> (if isCheckmate L (board (gameState u')) (currentPlayer (gameState u'))
                   (removedSquares (gameState u))
                   (updateCastlingRights L (gameState u) sel (row, col))
              then gameOver (gameState u') \<and> winner (gameState u') = Some (currentPlayer (gameState u))
              else gameOver (gameState u') = gameOver (gameState u)
                   \<and> winner (gameState u') = winner (gameState u))"
    using sel live none by (simp add: u' appliedMove_fields)
next
  assume r: "reachable_index M v" and press: "handleSquarePress_index M v row col = Inr (v', al')"
    and m: "actionMode v = Move"
    and turn: "currentPlayer (gameState v') \<noteq> currentPlayer (gameState v)"
  from press turn have live: "\<not> gameOver (gameState v)"
    by (auto simp: handleSquarePress_index_def)
  with reachable_index_noWinnerYet [OF r] have none: "winner (gameState v) = None"
    by (simp add: noWinnerYet_def)
  from movePress_index_cases [OF press live m] turn obtain sel where
    sel: "selectedSquare (gameState v) = Some sel"
    and v': "gameState v' = appliedMove M (gameState v) sel (row, col)"
    by (auto split: if_splits)
  show "currentPlayer (gameState v') = opponent (currentPlayer (gameState v))"
    by (simp add: v' appliedMove_fields)
  show "\<exists>sel. selectedSquare (gameState v) = Some sel
          \<and> (if isCheckmate M (board (gameState v')) (currentPlayer (gameState v'))
                   (removedSquares (gameState v))
                   (updateCastlingRights M (gameState v) sel (row, col))
              then gameOver (gameState v') \<and> winner (gameState v') = Some (currentPlayer (gameState v))
              else gameOver (gameState v') = gameOver (gameState v)
                   \<and> winner (gameState v') = winner (gameState v))"
    using sel live none by (simp add: v' appliedMove_fields)
qed

text \<open>
  The queen's move to h4 completes the fool's mate: the engine reports checkmate of White,
  the game is over and Black has won.
\<close>

theorem checkmate_ends_game_witness:
  "reachable specLogic beforeMate
   \<and> handleSquarePress specLogic beforeMate 4 7 = Inr (mated, [Checkmate Black])
   \<and> actionMode beforeMate = Move
   \<and> currentPlayer (gameState mated) \<noteq> currentPlayer (gameState beforeMate)
   \<and> currentPlayer (gameState mated) = opponent (currentPlayer (gameState beforeMate))
   \<and> isCheckmate specLogic (board (gameState mated)) (currentPlayer (gameState mated))
        (removedSquares (gameState beforeMate))
        (updateCastlingRights specLogic (gameState beforeMate) (0, 3) (4, 7))
   \<and> gameOver (gameState mated) \<and> winner (gameState mated) = Some Black
   \<and> reachable_index specLogic_index beforeMate_index
   \<and> handleSquarePress_index specLogic_index beforeMate_index 4 7
        = Inr (mated_index, [Checkmate Black])
   \<and> isCheckmate specLogic_index (board (gameState mated_index)) (currentPlayer (gameState mated_index))
        (removedSquares (gameState beforeMate_index))
        (updateCastlingRights specLogic_index (gameState beforeMate_index) (0, 3) (4, 7))
   \<and> gameOver (gameState mated_index) \<and> winner (gameState mated_index) = Some Black"
  using checkmate_ends_game [of specLogic beforeMate 4 7 mated "[Checkmate Black]"
      specLogic_index beforeMate_index mated_index "[Checkmate Black]"]
    mated_eq mated_index_eq mated_facts mated_index_facts beforeMate_facts beforeMate_index_facts
    beforeMate_reachable beforeMate_index_reachable
  by (auto split: if_splits)

text \<open>
  Claim C4. A press that returns normally switches the player to move to the opposite
  color when it is an accepted action: the game is running and the press is a legal
  removal (in remove mode) or a legal move of the selected piece (in move mode). Every
  other press leaves the player to move as it was. Both controllers, any engine.
\<close>

theorem turn_alternates:
  "(handleSquarePress L u row col = Inr (u', al) \<longrightarrow>
      (if \<not> gameOver (gameState u)
          \<and> (if actionMode u = Remove then legalRemoval (gameConfig u) (gameState u) row col
             else legalMovePress L (gameState u) (row, col))
       then currentPlayer (gameState u') = opponent (currentPlayer (gameState u))
            \<and> currentPlayer (gameState u') \<noteq> currentPlayer (gameState u)
       else currentPlayer (gameState u') = currentPlayer (gameState u)))
 \<and> (handleSquarePress_index M v row col = Inr (v', al') \<longrightarrow>
      (if \<not> gameOver (gameState v)
          \<and> (if actionMode v = Remove then legalRemoval_index (gameState v) row col
             else legalMovePress M (gameState v) (row, col))
       then currentPlayer (gameState v') = opponent (currentPlayer (gameState v))
            \<and> currentPlayer (gameState v') \<noteq> currentPlayer (gameState v)
       else currentPlayer (gameState v') = currentPlayer (gameState v)))"
  using turn_timed [of L u row col u' al] turn_index [of M v row col v' al']
  by (auto simp: opponent_neq split: if_splits)

text \<open>
  The mating move is a legal move and passes the turn; the step of the pinned pawn is not,
  and the turn stays with Black.
\<close>

theorem turn_alternates_witness:
  "handleSquarePress specLogic beforeMate 4 7 = Inr (mated, [Checkmate Black])
   \<and> legalMovePress specLogic (gameState beforeMate) (4, 7)
   \<and> currentPlayer (gameState mated) = opponent (currentPlayer (gameState beforeMate))
   \<and> handleSquarePress specLogic pinned 2 5 = Inr (pinned, [LeavesKingInCheck])
   \<and> \<not> legalMovePress specLogic (gameState pinned) (2, 5)
   \<and> handleSquarePress_index specLogic_index beforeMate_index 4 7
        = Inr (mated_index, [Checkmate Black])
   \<and> legalMovePress specLogic_index (gameState beforeMate_index) (4, 7)
   \<and> currentPlayer (gameState mated_index) = opponent (currentPlayer (gameState beforeMate_index))"
  using turn_alternates [of specLogic beforeMate 4 7 mated "[Checkmate Black]"
      specLogic_index beforeMate_index mated_index "[Checkmate Black]"]
    mated_eq mated_index_eq mated_facts mated_index_facts beforeMate_facts beforeMate_index_facts
    pinned_facts pinned_rejected
  by (auto simp: legalMovePress_def leavesKingInCheck_def opponent_def split: if_splits)

text \<open>
  Claim C5. While the game is running, a press in remove mode that returns normally is
  rejected (an alert is shown) if and only if the square is occupied, or is already
  removed, or, in the controller with a budget, the player to move has used up the quota.
  A rejected press returns the state it was given. An accepted press adds the square to
  the removed squares and passes the turn, and the board is the same.
\<close>

theorem removal_rejected_iff:
  "(\<not> gameOver (gameState u) \<and> actionMode u = Remove
      \<and> handleSquarePress L u row col = Inr (u', al) \<longrightarrow>
      (al \<noteq> [] \<longleftrightarrow> occupied (board (gameState u)) row col
                   \<or> positionKey row col \<in> removedSquares (gameState u)
                   \<or> quotaExhausted (gameConfig u) (gameState u))
    \<and> (al \<noteq> [] \<longrightarrow> u' = u)
    \<and> (al = [] \<longrightarrow>
          removedSquares (gameState u') = insert (positionKey row col) (removedSquares (gameState u))
        \<and> currentPlayer (gameState u') = opponent (currentPlayer (gameState u))
        \<and> board (gameState u') = board (gameState u)))
 \<and> (\<not> gameOver (gameState v) \<and> actionMode v = Remove
      \<and> handleSquarePress_index M v row col = Inr (v', al') \<longrightarrow>
      (al' \<noteq> [] \<longleftrightarrow> occupied (board (gameState v)) row col
                   \<or> positionKey row col \<in> removedSquares (gameState v))
    \<and> (al' \<noteq> [] \<longrightarrow> v' = v)
    \<and> (al' = [] \<longrightarrow>
          removedSquares (gameState v') = insert (positionKey row col) (removedSquares (gameState v))
        \<and> currentPlayer (gameState v') = opponent (currentPlayer (gameState v))
        \<and> board (gameState v') = board (gameState v)))"
proof -
  have "removePress u row col = Inr (u', al)"
    if "\<not> gameOver (gameState u)" "actionMode u = Remove" "handleSquarePress L u row col = Inr (u', al)"
    using that by (simp add: handleSquarePress_def)
  moreover have "removePress_index v row col = Inr (v', al')"
    if "\<not> gameOver (gameState v)" "actionMode v = Remove"
      "handleSquarePress_index M v row col = Inr (v', al')"
    using that by (simp add: handleSquarePress_index_def)
  ultimately show ?thesis
    using removePress_cases [of u row col u' al] removePress_index_cases [of v row col v' al']
    by auto
qed

text \<open>
  At the start of the game the square e4 is empty: pressing it in remove mode removes it
  and gives Black the turn.
\<close>

theorem removal_rejected_iff_witness:
  "\<not> gameOver (gameState removeMode) \<and> actionMode removeMode = Remove
   \<and> handleSquarePress specLogic removeMode 4 4 = Inr (removedE4, [])
   \<and> \<not> occupied (board (gameState removeMode)) 4 4
   \<and> \<not> quotaExhausted (gameConfig removeMode) (gameState removeMode)
   \<and> removedSquares (gameState removedE4) = {positionKey 4 4}
   \<and> currentPlayer (gameState removedE4) = Black
   \<and> board (gameState removedE4) = board (gameState removeMode)
   \<and> \<not> gameOver (gameState removeMode_index) \<and> actionMode removeMode_index = Remove
   \<and> handleSquarePress_index specLogic_index removeMode_index 4 4 = Inr (removedE4_index, [])
   \<and> \<not> occupied (board (gameState removeMode_index)) 4 4
   \<and> removedSquares (gameState removedE4_index) = {positionKey 4 4}
   \<and> currentPlayer (gameState removedE4_index) = Black
   \<and> board (gameState removedE4_index) = board (gameState removeMode_index)"
  using removal_rejected_iff [of removeMode specLogic 4 4 removedE4 "[]"
      removeMode_index specLogic_index removedE4_index "[]"]
    removedE4_eq removedE4_index_eq removeMode_facts removeMode_index_facts
  by (simp add: opponent_def)

text \<open>
  Claim C6. Once \<^verbatim>\<open>gameOver\<close> is true, a press on any square, in either mode and in
  either controller, returns the state it was given and shows no alert; nothing is moved
  and nothing is removed. This holds in particular for the state \<^verbatim>\<open>handleTimeUp\<close>
  leaves, whatever the state it was called on.
\<close>

theorem gameOver_ignores_presses:
  "(gameOver (gameState u) \<longrightarrow> handleSquarePress L u row col = Inr (u, []))
   \<and> (gameOver (gameState v) \<longrightarrow> handleSquarePress_index M v row col = Inr (v, []))
   \<and> handleSquarePress L (fst (handleTimeUp p u)) row col = Inr (fst (handleTimeUp p u), [])"
  by (simp add: handleSquarePress_def handleSquarePress_index_def handleTimeUp_def)

text \<open>
  The game ended by the fool's mate is over, and a press on e4 does nothing to it.
\<close>

theorem gameOver_ignores_presses_witness:
  "gameOver (gameState mated) \<and> handleSquarePress specLogic mated 4 4 = Inr (mated, [])
   \<and> gameOver (gameState mated_index)
   \<and> handleSquarePress_index specLogic_index mated_index 4 4 = Inr (mated_index, [])"
  using gameOver_ignores_presses [of mated specLogic 4 4 mated_index specLogic_index]
    mated_facts(1) mated_index_facts(1)
  by simp

text \<open>
  Claim C7. When the clock signals time-up for a player, the game is over and the winner
  is the opponent of that player; the board and the player to move are not consulted and
  not changed. The clock's interval sends the signal for the player to move as soon as
  that player has one second or less.
\<close>

theorem time_up_ends_game:
  "gameOver (gameState (fst (handleTimeUp p u)))
   \<and> winner (gameState (fst (handleTimeUp p u))) = Some (opponent p)
   \<and> opponent p \<noteq> p
   \<and> snd (handleTimeUp p u) = [TimeExpired (opponent p)]
   \<and> board (gameState (fst (handleTimeUp p u))) = board (gameState u)
   \<and> currentPlayer (gameState (fst (handleTimeUp p u))) = currentPlayer (gameState u)
   \<and> (\<not> gameOver (gameState u)
        \<and> atPlayer (timeLeft (gameState u)) (currentPlayer (gameState u)) \<le> 1
       \<longrightarrow> timerTick u = handleTimeUp (currentPlayer (gameState u)) u)"
  by (simp add: handleTimeUp_def timerTick_def opponent_def Let_def)

text \<open>White is to move with one second left: the next firing of the clock gives Black the game.\<close>

theorem time_up_ends_game_witness:
  "\<not> gameOver (gameState lastSecond)
   \<and> atPlayer (timeLeft (gameState lastSecond)) (currentPlayer (gameState lastSecond)) \<le> 1
   \<and> timerTick lastSecond = handleTimeUp White lastSecond
   \<and> gameOver (gameState (fst (timerTick lastSecond)))
   \<and> winner (gameState (fst (timerTick lastSecond))) = Some Black"
  using time_up_ends_game [of White lastSecond] lastSecond_facts
  by (simp add: opponent_def)

text \<open>
  A rejected move that changes the game state: the pawn on e2 cannot go to e5, so the
  attempt is an illegal move; the press clears the selection, and the game state is not
  the one before.
\<close>

theorem rejected_move_changes_selection:
  "\<not> isValidMove specLogic_index (board (gameState e2Selected_index)) (6, 4) (3, 4)
      (removedSquares (gameState e2Selected_index)) (gameState e2Selected_index)
   \<and> handleSquarePress_index specLogic_index e2Selected_index 3 4 = Inr (e2Dropped_index, [])
   \<and> selectedSquare (gameState e2Selected_index) = Some (6, 4)
   \<and> selectedSquare (gameState e2Dropped_index) = None
   \<and> gameState e2Dropped_index \<noteq> gameState e2Selected_index
   \<and> \<not> isValidMove specLogic (board (gameState e2Selected)) (6, 4) (3, 4)
      (removedSquares (gameState e2Selected)) (gameState e2Selected)
   \<and> handleSquarePress specLogic e2Selected 3 4 = Inr (e2Dropped, [])
   \<and> selectedSquare (gameState e2Selected) = Some (6, 4)
   \<and> selectedSquare (gameState e2Dropped) = None
   \<and> gameState e2Dropped \<noteq> gameState e2Selected"
proof -
  have "gameState e2Dropped_index \<noteq> gameState e2Selected_index"
    using e2Selected_index_facts(3,6) by auto
  moreover have "gameState e2Dropped \<noteq> gameState e2Selected"
    using e2Selected_facts(3,6) by auto
  ultimately show ?thesis
    using e2Selected_facts e2Selected_index_facts e2Dropped_eq e2Dropped_index_eq by simp
qed

text \<open>
  Claim C8, as amended. A press that ends with a rejection alert (quota exhausted, square
  already removed, square occupied, move leaves the king in check) returns the state it
  was given, entirely unchanged. A press in move mode on a square that is not a valid
  move of the selected piece shows no alert and changes the selection, and nothing else:
  the selection becomes the pressed square when that square holds a piece of the player
  to move, and is cleared otherwise.
\<close>

theorem rejected_attempt_effect:
  "(handleSquarePress L u row col = Inr (u', al) \<longrightarrow>
      (\<forall>a. al = [a] \<and> isRejection a \<longrightarrow> u' = u)
    \<and> (\<forall>sel. \<not> gameOver (gameState u) \<and> actionMode u = Move
            \<and> selectedSquare (gameState u) = Some sel \<and> sel \<noteq> (row, col)
            \<and> \<not> isValidMove L (board (gameState u)) sel (row, col)
                   (removedSquares (gameState u)) (gameState u) \<longrightarrow>
          al = []
          \<and> (\<exists>p. boardAt (board (gameState u)) row col = Inr p
                \<and> gameState u' = (gameState u)\<lparr>selectedSquare :=
                      (if ownPiece p (currentPlayer (gameState u)) then Some (row, col) else None)\<rparr>)))
 \<and> (handleSquarePress_index M v row col = Inr (v', al') \<longrightarrow>
      (\<forall>a. al' = [a] \<and> isRejection a \<longrightarrow> v' = v)
    \<and> (\<forall>sel. \<not> gameOver (gameState v) \<and> actionMode v = Move
            \<and> selectedSquare (gameState v) = Some sel \<and> sel \<noteq> (row, col)
            \<and> \<not> isValidMove M (board (gameState v)) sel (row, col)
                   (removedSquares (gameState v)) (gameState v) \<longrightarrow>
          al' = []
          \<and> (\<exists>p. boardAt (board (gameState v)) row col = Inr p
                \<and> gameState v' = (gameState v)\<lparr>selectedSquare :=
                      (if ownPiece p (currentPlayer (gameState v)) then Some (row, col) else None)\<rparr>)))"
  using rejection_timed [of L u row col u' al] rejection_index [of M v row col v' al']
    invalid_timed [of L u row col u' al] invalid_index [of M v row col v' al']
  by blast

text \<open>
  The rejected step of the pinned pawn leaves the state unchanged; the attempt to send the
  pawn from e2 to e5 changes the selection only.
\<close>

theorem rejected_attempt_effect_witness:
  "handleSquarePress specLogic pinned 2 5 = Inr (pinned, [LeavesKingInCheck])
   \<and> isRejection LeavesKingInCheck
   \<and> handleSquarePress specLogic e2Selected 3 4 = Inr (e2Dropped, [])
   \<and> \<not> gameOver (gameState e2Selected) \<and> actionMode e2Selected = Move
   \<and> selectedSquare (gameState e2Selected) = Some (6, 4)
   \<and> \<not> isValidMove specLogic (board (gameState e2Selected)) (6, 4) (3, 4)
          (removedSquares (gameState e2Selected)) (gameState e2Selected)
   \<and> board (gameState e2Dropped) = board (gameState e2Selected)
   \<and> currentPlayer (gameState e2Dropped) = currentPlayer (gameState e2Selected)
   \<and> removedSquares (gameState e2Dropped) = removedSquares (gameState e2Selected)
   \<and> castlingRights (gameState e2Dropped) = castlingRights (gameState e2Selected)
   \<and> gameOver (gameState e2Dropped) = gameOver (gameState e2Selected)
   \<and> winner (gameState e2Dropped) = winner (gameState e2Selected)
   \<and> handleSquarePress_index specLogic_index e2Selected_index 3 4 = Inr (e2Dropped_index, [])
   \<and> board (gameState e2Dropped_index) = board (gameState e2Selected_index)
   \<and> currentPlayer (gameState e2Dropped_index) = currentPlayer (gameState e2Selected_index)"
  using rejected_attempt_effect [of specLogic e2Selected 3 4 e2Dropped "[]"
      specLogic_index e2Selected_index e2Dropped_index "[]"]
    e2Selected_facts e2Selected_index_facts e2Dropped_eq e2Dropped_index_eq pinned_rejected
  by auto


text \<open>
  Claim C10. In the controller of \<^verbatim>\<open>src/app/index.tsx\<close> a press in remove mode on an
  empty, non-removed square of a running game always succeeds: no count of earlier
  removals is consulted, whatever else the state carries. The controller of
  \<^verbatim>\<open>part_000\<close> rejects every removal once the player to move has used
  \<^verbatim>\<open>removalsPerPlayer\<close> removals.
\<close>

theorem no_quota_in_index:
  "(\<not> gameOver (gameState v) \<and> actionMode v = Remove
      \<and> positionKey row col \<notin> removedSquares (gameState v)
      \<and> boardAt (board (gameState v)) row col = Inr None \<longrightarrow>
      handleSquarePress_index M v row col =
        Inr (v\<lparr>gameState := (gameState v)
                  \<lparr>removedSquares := insert (positionKey row col) (removedSquares (gameState v)),
                   currentPlayer := opponent (currentPlayer (gameState v))\<rparr>,
               actionMode := Move\<rparr>, []))
 \<and> (\<not> gameOver (gameState u) \<and> actionMode u = Remove
      \<and> removalsPerPlayer (gameConfig u)
           \<le> atPlayer (removalsUsed (gameState u)) (currentPlayer (gameState u)) \<longrightarrow>
      handleSquarePress L u row col = Inr (u, [LimitReached (removalsPerPlayer (gameConfig u))]))"
  by (simp add: handleSquarePress_index_def removePress_index_def handleSquarePress_def
        removePress_def Let_def)

text \<open>
  With three removals used by White, the controller of index.tsx still removes e4; the
  controller of part_000 answers that the limit is reached.
\<close>

theorem no_quota_in_index_witness:
  "\<not> gameOver (gameState quotaUsed) \<and> actionMode quotaUsed = Remove
   \<and> positionKey 4 4 \<notin> removedSquares (gameState quotaUsed)
   \<and> boardAt (board (gameState quotaUsed)) 4 4 = Inr None
   \<and> removalsPerPlayer (gameConfig quotaUsed)
        \<le> atPlayer (removalsUsed (gameState quotaUsed)) (currentPlayer (gameState quotaUsed))
   \<and> handleSquarePress_index specLogic quotaUsed 4 4 =
        Inr (quotaUsed\<lparr>gameState := (gameState quotaUsed)
                          \<lparr>removedSquares := insert (positionKey 4 4) (removedSquares (gameState quotaUsed)),
                           currentPlayer := Black\<rparr>,
                       actionMode := Move\<rparr>, [])
   \<and> handleSquarePress specLogic quotaUsed 4 4 = Inr (quotaUsed, [LimitReached 3])"
  using no_quota_in_index [of quotaUsed 4 4 specLogic quotaUsed specLogic] quotaUsed_facts
  by (simp add: opponent_def)

end
